(* ===== verification/BSpline_Prelude.thy ===== *)
theory BSpline_Prelude
  imports Complex_Main
begin

text \<open>
  Shared vocabulary of the B-spline development. The Rust program reports no recoverable
  errors: every failure is a panic (an index out of bounds, a \<open>usize\<close> subtraction that
  underflows, a failed \<open>assert_eq!\<close>). A computation that may panic returns a value of
  \<open>'a result = panic + 'a\<close>, \<open>Inl\<close> the panic. \<open>bind_r\<close> sequences two such
  computations and stops at the first panic, as Rust's unwinding does; \<open>foldM\<close> is a
  \<open>for\<close> loop over an index range whose body may panic; \<open>mapM\<close> is an iterator
  \<open>map\<close> collected into a \<open>Vec\<close>. \<open>idx\<close> is Rust's checked indexing \<open>v[n]\<close> and
  \<open>usub\<close> its \<open>usize\<close> subtraction (a debug build panics on underflow; a release
  build wraps, and every wrapped value below is then rejected by the same check).
  The named collection \<open>result_simps\<close> gathers the rewrite rules that run these
  combinators on concrete and symbolic arguments.
\<close>

named_theorems result_simps "rules evaluating the panic-result combinators"

datatype panic = IndexOutOfBounds | SubtractOverflow | AssertionFailed

type_synonym 'a result = "panic + 'a"

definition bind_r :: "'a result \<Rightarrow> ('a \<Rightarrow> 'b result) \<Rightarrow> 'b result" where
  "bind_r m f = (case m of Inl e \<Rightarrow> Inl e | Inr x \<Rightarrow> f x)"

definition idx :: "'a list \<Rightarrow> nat \<Rightarrow> 'a result" where
  "idx xs n = (if n < length xs then Inr (xs ! n) else Inl IndexOutOfBounds)"

definition usub :: "nat \<Rightarrow> nat \<Rightarrow> nat result" where
  "usub a b = (if b \<le> a then Inr (a - b) else Inl SubtractOverflow)"

fun foldM :: "('s \<Rightarrow> 'b \<Rightarrow> 's result) \<Rightarrow> 'b list \<Rightarrow> 's \<Rightarrow> 's result" where
  "foldM f [] s = Inr s"
| "foldM f (x # xs) s = bind_r (f s x) (foldM f xs)"

fun mapM :: "('a \<Rightarrow> 'b result) \<Rightarrow> 'a list \<Rightarrow> 'b list result" where
  "mapM f [] = Inr []"
| "mapM f (x # xs) = bind_r (f x) (\<lambda>y. bind_r (mapM f xs) (\<lambda>ys. Inr (y # ys)))"

text \<open>\<open>panics_as e r\<close>: the computation \<open>r\<close> either succeeds or panics with \<open>e\<close>.\<close>

definition panics_as :: "panic \<Rightarrow> 'a result \<Rightarrow> bool" where
  "panics_as e r \<longleftrightarrow> (\<forall>e'. r = Inl e' \<longrightarrow> e' = e)"

subsection \<open>Evaluating the combinators\<close>

lemma bind_r_Inr [simp, result_simps]: "bind_r (Inr x) f = f x"
  by (simp add: bind_r_def)

lemma bind_r_Inl [simp, result_simps]: "bind_r (Inl e) f = Inl e"
  by (simp add: bind_r_def)

lemma bind_r_eq_Inr:
  "bind_r m f = Inr y \<longleftrightarrow> (\<exists>x. m = Inr x \<and> f x = Inr y)"
  by (cases m) simp_all

lemma idx_in [simp, result_simps]: "n < length xs \<Longrightarrow> idx xs n = Inr (xs ! n)"
  by (simp add: idx_def)

lemma idx_out [simp, result_simps]: "\<not> n < length xs \<Longrightarrow> idx xs n = Inl IndexOutOfBounds"
  by (simp add: idx_def)

lemma usub_le [simp, result_simps]: "b \<le> a \<Longrightarrow> usub a b = Inr (a - b)"
  by (simp add: usub_def)

lemma usub_gt [simp, result_simps]: "\<not> b \<le> a \<Longrightarrow> usub a b = Inl SubtractOverflow"
  by (simp add: usub_def)

lemma foldM_append:
  "foldM f (xs @ ys) s = bind_r (foldM f xs s) (foldM f ys)"
  by (induction xs arbitrary: s) (simp_all add: bind_r_def split: sum.splits)

lemma foldM_snoc:
  "foldM f (xs @ [x]) s = bind_r (foldM f xs s) (\<lambda>s'. f s' x)"
  by (simp add: foldM_append bind_r_def split: sum.splits)

text \<open>A loop whose body always succeeds is the pure fold of the body.\<close>

lemma foldM_Inr:
  assumes "\<And>s x. x \<in> set xs \<Longrightarrow> f s x = Inr (g s x)"
  shows "foldM f xs s = Inr (fold (\<lambda>x s. g s x) xs s)"
  using assms by (induction xs arbitrary: s) simp_all

lemma mapM_Inr:
  assumes "\<And>x. x \<in> set xs \<Longrightarrow> f x = Inr (g x)"
  shows "mapM f xs = Inr (map g xs)"
  using assms by (induction xs) simp_all

lemma mapM_Inr_length:
  "mapM f xs = Inr ys \<Longrightarrow> length ys = length xs"
  by (induction xs arbitrary: ys) (auto simp: bind_r_eq_Inr)

lemma bind_r_Inr_right [simp]: "bind_r m Inr = m"
  by (cases m) simp_all

lemma mapM_Inr_nth:
  "mapM f xs = Inr ys \<Longrightarrow> k < length xs \<Longrightarrow> f (xs ! k) = Inr (ys ! k)"
proof (induction xs arbitrary: ys k)
  case (Cons x xs)
  then obtain y ys' where "f x = Inr y" "mapM f xs = Inr ys'" "ys = y # ys'"
    by (auto simp: bind_r_eq_Inr)
  with Cons show ?case by (cases k) simp_all
qed simp

text \<open>A loop that pushes the value of a fallible body onto a vector is a \<open>mapM\<close>.\<close>

lemma foldM_push:
  "foldM (\<lambda>acc x. bind_r (g x) (\<lambda>r. Inr (acc @ [r]))) xs acc = bind_r (mapM g xs) (\<lambda>rs. Inr (acc @ rs))"
  by (induction xs arbitrary: acc) (auto simp: bind_r_def split: sum.split)

lemma foldM_push_pairs:
  "foldM (\<lambda>(as, bs) x. bind_r (g x) (\<lambda>(a, b). Inr (as @ [a], bs @ [b]))) xs (as0, bs0)
   = bind_r (mapM g xs) (\<lambda>ps. Inr (as0 @ map fst ps, bs0 @ map snd ps))"
  by (induction xs arbitrary: as0 bs0) (auto simp: bind_r_def split: sum.split prod.split)

lemma mapM_Inr_iff:
  "(\<exists>ys. mapM f xs = Inr ys) \<longleftrightarrow> (\<forall>x \<in> set xs. \<exists>v. f x = Inr v)"
proof (induction xs)
  case Nil
  then show ?case by simp
next
  case (Cons x xs)
  then show ?case by (cases "f x") (auto simp: bind_r_eq_Inr)
qed

lemma mapM_Inl:
  assumes "\<And>x. x \<in> set xs \<Longrightarrow> f x = Inl e \<or> (\<exists>v. f x = Inr v)"
    and "\<exists>x \<in> set xs. f x = Inl e"
  shows "mapM f xs = Inl e"
  using assms
proof (induction xs)
  case Nil
  then show ?case by simp
next
  case (Cons y ys)
  show ?case
  proof (cases "f y")
    case (Inl e')
    with Cons.prems(1) [of y] have "e' = e" by auto
    with Inl show ?thesis by simp
  next
    case (Inr v)
    with Cons.prems(2) have "\<exists>x \<in> set ys. f x = Inl e" by auto
    with Cons.prems(1) have "mapM f ys = Inl e" by (intro Cons.IH) auto
    with Inr show ?thesis by simp
  qed
qed

text \<open>Pushing one value per iteration onto a vector builds the mapped list.\<close>

lemma fold_push: "fold (\<lambda>x acc. acc @ [g x]) xs acc0 = acc0 @ map g xs"
  by (induction xs arbitrary: acc0) simp_all

text \<open>A loop that completes ran every iteration of its body to completion.\<close>

lemma foldM_Inr_elem:
  "foldM f xs s = Inr s' \<Longrightarrow> x \<in> set xs \<Longrightarrow> \<exists>u v. f u x = Inr v"
  by (induction xs arbitrary: s) (auto simp: bind_r_eq_Inr)

text \<open>An invariant kept by every completed iteration holds when the loop completes.\<close>

lemma foldM_invariant:
  assumes "foldM f xs s = Inr s'" and "P s"
    and "\<And>u x u'. x \<in> set xs \<Longrightarrow> f u x = Inr u' \<Longrightarrow> P u \<Longrightarrow> P u'"
  shows "P s'"
  using assms by (induction xs arbitrary: s) (auto simp: bind_r_eq_Inr)

subsection \<open>Which panic\<close>

lemma panics_as_Inr [simp, result_simps]: "panics_as e (Inr x)"
  by (simp add: panics_as_def)

lemma panics_as_Inl [simp, result_simps]: "panics_as e (Inl e') \<longleftrightarrow> e' = e"
  by (simp add: panics_as_def)

lemma panics_as_bind_r [intro]:
  "panics_as e m \<Longrightarrow> (\<And>x. m = Inr x \<Longrightarrow> panics_as e (f x)) \<Longrightarrow> panics_as e (bind_r m f)"
  by (cases m) (simp_all add: panics_as_def)

lemma panics_as_foldM [intro]:
  "(\<And>u x. x \<in> set xs \<Longrightarrow> panics_as e (f u x)) \<Longrightarrow> panics_as e (foldM f xs s)"
  by (induction xs arbitrary: s) auto

lemma panics_as_mapM [intro]:
  "(\<And>x. x \<in> set xs \<Longrightarrow> panics_as e (f x)) \<Longrightarrow> panics_as e (mapM f xs)"
  by (induction xs) (auto intro!: panics_as_bind_r)

lemma panics_as_idx [simp, result_simps]: "panics_as IndexOutOfBounds (idx xs n)"
  by (simp add: idx_def)

lemma panics_as_not_Inr:
  "panics_as e r \<Longrightarrow> (\<nexists>v. r = Inr v) \<Longrightarrow> r = Inl e"
  by (cases r) simp_all

subsection \<open>Sums over index ranges\<close>

lemma sum_list_map_upt:
  "sum_list (map f [a..<b]) = (\<Sum>i = a..<b. f i)"
  by (simp add: interv_sum_list_conv_sum_set_nat)

lemma sum_single_nonzero:
  fixes n :: nat
  assumes "j < n" and "\<And>i. i < n \<Longrightarrow> i \<noteq> j \<Longrightarrow> f i = 0"
  shows "(\<Sum>i<n. f i) = (f j :: 'a::comm_monoid_add)"
proof -
  have "(\<Sum>i<n. f i) = (\<Sum>i\<in>{j}. f i)"
    using assms by (intro sum.mono_neutral_right) auto
  then show ?thesis by simp
qed

text \<open>A combination with non-negative weights summing to 1 stays between the bounds of
  the combined values.\<close>

lemma convex_comb_bounds:
  fixes w v :: "nat \<Rightarrow> 'a::linordered_field"
  assumes "(\<Sum>i<n. w i) = 1" and "\<And>i. i < n \<Longrightarrow> 0 \<le> w i"
    and "\<And>i. i < n \<Longrightarrow> lo \<le> v i \<and> v i \<le> hi"
  shows "lo \<le> (\<Sum>i<n. w i * v i) \<and> (\<Sum>i<n. w i * v i) \<le> hi"
proof
  have "lo = (\<Sum>i<n. w i * lo)" using assms(1) by (simp add: sum_distrib_right [symmetric])
  also have "\<dots> \<le> (\<Sum>i<n. w i * v i)"
    using assms(2,3) by (intro sum_mono mult_left_mono) auto
  finally show "lo \<le> (\<Sum>i<n. w i * v i)" .
  have "(\<Sum>i<n. w i * v i) \<le> (\<Sum>i<n. w i * hi)"
    using assms(2,3) by (intro sum_mono mult_left_mono) auto
  also have "\<dots> = hi" using assms(1) by (simp add: sum_distrib_right [symmetric])
  finally show "(\<Sum>i<n. w i * v i) \<le> hi" .
qed

text \<open>Adding a constant to every value of a combination whose weights sum to 1 adds it to
  the combination.\<close>

lemma sum_affine:
  fixes w v :: "nat \<Rightarrow> 'a::comm_ring_1"
  assumes "(\<Sum>i<n. w i) = 1"
  shows "(\<Sum>i<n. w i * (v i + d)) = (\<Sum>i<n. w i * v i) + d"
proof -
  have "(\<Sum>i<n. w i * (v i + d)) = (\<Sum>i<n. w i * v i) + (\<Sum>i<n. w i) * d"
    by (simp add: distrib_left sum.distrib sum_distrib_right)
  with assms show ?thesis by simp
qed

end
