(* ===== verification/Basis.thy ===== *)
theory Basis
  imports BSpline_Prelude
begin

text \<open>
  The Cox-de Boor recursion as the repository writes it in its recursive form (the
  commented-out \<open>cox_de_boor\<close> of \<^verbatim>\<open>src/main.rs\<close>, lines 39-59), over knots \<open>ks\<close>
  (\<open>self.knots\<close>) and the configured degree \<open>deg\<close> (\<open>self.degree\<close>). Numbers are a
  linearly ordered field; \<open>f64\<close> rounding is not modelled. The blending coefficients
  \<open>coef_left\<close>/\<open>coef_right\<close> and the degree-0 test \<open>deg0_active\<close> are shared with
  the table-based implementation (theory \<open>Cox_de_Boor\<close>). \<open>basis\<close> reads knots with
  \<open>!\<close>: it is the mathematical reference, meaningful where \<open>i + p + 1 < length ks\<close>;
  the panic behaviour of out-of-range reads is modelled by the implementation.

  The lemmas give the classical properties under a sorted knot vector: local support
  (with the right-edge closure as the only exception), non-negativity, the value pattern
  on a single non-empty knot span, partition of unity, and the values at clamped ends.
\<close>

definition coef_left :: "'a::linordered_field \<Rightarrow> 'a \<Rightarrow> 'a \<Rightarrow> 'a" where
  "coef_left lo hi t = (if hi = lo then 0 else (t - lo) / (hi - lo))"

definition coef_right :: "'a::linordered_field \<Rightarrow> 'a \<Rightarrow> 'a \<Rightarrow> 'a" where
  "coef_right lo hi t = (if hi = lo then 0 else (hi - t) / (hi - lo))"

abbreviation closing_span :: "'a list \<Rightarrow> nat \<Rightarrow> nat" where
  "closing_span ks deg \<equiv> length ks - (deg + 2)"

definition deg0_active :: "'a::linordered_field list \<Rightarrow> nat \<Rightarrow> 'a \<Rightarrow> nat \<Rightarrow> bool" where
  "deg0_active ks deg t m \<longleftrightarrow>
     (ks ! m \<le> t \<and> t < ks ! (m + 1)) \<or> (m = closing_span ks deg \<and> t = ks ! (m + 1))"

primrec basis :: "'a::linordered_field list \<Rightarrow> nat \<Rightarrow> 'a \<Rightarrow> nat \<Rightarrow> nat \<Rightarrow> 'a" where
  "basis ks deg t 0 i = (if deg0_active ks deg t i then 1 else 0)"
| "basis ks deg t (Suc p) i =
     coef_left (ks ! i) (ks ! (i + Suc p)) t * basis ks deg t p i
   + coef_right (ks ! (i + 1)) (ks ! (i + Suc p + 1)) t * basis ks deg t p (i + 1)"

text \<open>
  \<open>basis_from ks r t p i\<close> is the same blend started from an arbitrary degree-0 row
  \<open>r\<close>; \<open>basis\<close> is \<open>basis_from\<close> on the row of \<open>deg0_active\<close>. It is linear in the
  row, which splits the degree-0 row at a point lying in two active spans.
\<close>

primrec basis_from :: "'a::linordered_field list \<Rightarrow> (nat \<Rightarrow> 'a) \<Rightarrow> 'a \<Rightarrow> nat \<Rightarrow> nat \<Rightarrow> 'a" where
  "basis_from ks r t 0 i = r i"
| "basis_from ks r t (Suc p) i =
     coef_left (ks ! i) (ks ! (i + Suc p)) t * basis_from ks r t p i
   + coef_right (ks ! (i + 1)) (ks ! (i + Suc p + 1)) t * basis_from ks r t p (i + 1)"

abbreviation span_row :: "nat \<Rightarrow> nat \<Rightarrow> 'a::linordered_field" where
  "span_row k j \<equiv> (if j = k then 1 else 0)"

text \<open>
  \<open>single_span ks deg t k\<close>: at \<open>t\<close> the degree-0 functions are the indicator of the
  one span \<open>k\<close>. It holds inside the domain and, through the closure rule, at the right
  end of a clamped knot vector; the partition-of-unity and end-value lemmas are proved
  from it. \<open>clamped_start\<close>/\<open>clamped_end\<close>: the first/last \<open>deg + 1\<close> knots are
  equal and the span next to them is non-empty, with at least \<open>deg + 1\<close> basis functions.
\<close>

definition single_span :: "'a::linordered_field list \<Rightarrow> nat \<Rightarrow> 'a \<Rightarrow> nat \<Rightarrow> bool" where
  "single_span ks deg t k \<longleftrightarrow>
     (\<forall>j. j + 1 < length ks \<longrightarrow> deg0_active ks deg t j = (j = k))"

definition clamped_start :: "'a::linordered_field list \<Rightarrow> nat \<Rightarrow> bool" where
  "clamped_start ks deg \<longleftrightarrow>
     2 * deg + 2 \<le> length ks \<and> ks ! deg < ks ! (deg + 1) \<and> (\<forall>j \<in> {..deg}. ks ! j = ks ! 0)"

definition clamped_end :: "'a::linordered_field list \<Rightarrow> nat \<Rightarrow> bool" where
  "clamped_end ks deg \<longleftrightarrow>
     (let n = length ks - (deg + 1) in
      2 * deg + 2 \<le> length ks \<and> ks ! (n - 1) < ks ! n \<and> (\<forall>j \<in> {n..<length ks}. ks ! j = ks ! n))"

subsection \<open>Coefficients and knots\<close>

lemma coef_left_nonneg: "lo \<le> t \<Longrightarrow> lo \<le> hi \<Longrightarrow> 0 \<le> coef_left lo hi t"
  by (simp add: coef_left_def)

lemma coef_right_nonneg: "t \<le> hi \<Longrightarrow> lo \<le> hi \<Longrightarrow> 0 \<le> coef_right lo hi t"
  by (simp add: coef_right_def)

lemma coef_left_right: "hi \<noteq> lo \<Longrightarrow> coef_left lo hi t + coef_right lo hi t = 1"
  by (simp add: coef_left_def coef_right_def diff_divide_distrib[symmetric]
      add_divide_distrib[symmetric])

lemma coef_left_at_lo: "coef_left lo hi lo = 0"
  by (simp add: coef_left_def)

lemma coef_right_at_hi: "coef_right lo hi hi = 0"
  by (simp add: coef_right_def)

lemma coef_left_at_hi: "hi \<noteq> lo \<Longrightarrow> coef_left lo hi hi = 1"
  by (simp add: coef_left_def)

lemma coef_right_at_lo: "hi \<noteq> lo \<Longrightarrow> coef_right lo hi lo = 1"
  by (simp add: coef_right_def)

lemma knot_mono: "sorted ks \<Longrightarrow> i \<le> j \<Longrightarrow> j < length ks \<Longrightarrow> ks ! i \<le> ks ! j"
  by (rule sorted_nth_mono)

subsection \<open>Local support and non-negativity\<close>

text \<open>
  A basis function is non-zero only on \<open>[ks ! i, ks ! (i + p + 1))\<close>, or at the right end
  of the closing span \<open>closing_span ks deg\<close> when that span is one of the \<open>p + 1\<close> spans
  the function covers.
\<close>

lemma basis_support:
  assumes "sorted ks" and "i + p + 1 < length ks" and "basis ks deg t p i \<noteq> 0"
  shows "ks ! i \<le> t \<and> (t < ks ! (i + p + 1) \<or>
    (i \<le> closing_span ks deg \<and> closing_span ks deg \<le> i + p \<and> t = ks ! (closing_span ks deg + 1)))"
  using assms(2,3)
proof (induction p arbitrary: i)
  case 0
  then show ?case
    using knot_mono [OF assms(1), of i "i + 1"]
    by (auto simp: deg0_active_def split: if_splits)
next
  case (Suc p)
  let ?m = "closing_span ks deg"
  have "basis ks deg t p i \<noteq> 0 \<or> basis ks deg t p (i + 1) \<noteq> 0"
    using Suc.prems(2) by auto
  then show ?case
  proof
    assume "basis ks deg t p i \<noteq> 0"
    with Suc.prems(1) Suc.IH [of i] have "ks ! i \<le> t" and
      "t < ks ! (i + p + 1) \<or> (i \<le> ?m \<and> ?m \<le> i + p \<and> t = ks ! (?m + 1))"
      by auto
    moreover have "ks ! (i + p + 1) \<le> ks ! (i + Suc p + 1)"
      using knot_mono [OF assms(1)] Suc.prems(1) by simp
    ultimately show ?case by auto
  next
    assume "basis ks deg t p (i + 1) \<noteq> 0"
    with Suc.prems(1) Suc.IH [of "i + 1"] have "ks ! (i + 1) \<le> t" and
      "t < ks ! (i + 1 + p + 1) \<or> (i + 1 \<le> ?m \<and> ?m \<le> i + 1 + p \<and> t = ks ! (?m + 1))"
      by auto
    moreover have "ks ! i \<le> ks ! (i + 1)"
      using knot_mono [OF assms(1)] Suc.prems(1) by simp
    ultimately show ?case by auto
  qed
qed

lemma basis_support_closed:
  assumes "sorted ks" and "i + p + 1 < length ks" and "basis ks deg t p i \<noteq> 0"
  shows "ks ! i \<le> t \<and> t \<le> ks ! (i + p + 1)"
proof -
  let ?m = "closing_span ks deg"
  from basis_support [OF assms] have "ks ! i \<le> t"
    and "t < ks ! (i + p + 1) \<or> (?m \<le> i + p \<and> t = ks ! (?m + 1))" by auto
  moreover have "?m \<le> i + p \<Longrightarrow> ks ! (?m + 1) \<le> ks ! (i + p + 1)"
    using knot_mono [OF assms(1)] assms(2) by simp
  ultimately show ?thesis by auto
qed

lemma basis_nonneg:
  assumes "sorted ks" and "i + p + 1 < length ks"
  shows "0 \<le> basis ks deg t p i"
  using assms(2)
proof (induction p arbitrary: i)
  case 0
  then show ?case by simp
next
  case (Suc p)
  have lo_hi: "ks ! i \<le> ks ! (i + Suc p)" "ks ! (i + 1) \<le> ks ! (i + Suc p + 1)"
    using knot_mono [OF assms(1)] Suc.prems by simp_all
  have "0 \<le> coef_left (ks ! i) (ks ! (i + Suc p)) t * basis ks deg t p i"
  proof (cases "basis ks deg t p i = 0")
    case False
    have "i + p + 1 < length ks" using Suc.prems by simp
    from basis_support_closed [OF assms(1) this False] have "ks ! i \<le> t" by simp
    with lo_hi Suc.IH [of i] Suc.prems show ?thesis by (simp add: coef_left_nonneg)
  qed simp
  moreover have "0 \<le> coef_right (ks ! (i + 1)) (ks ! (i + Suc p + 1)) t * basis ks deg t p (i + 1)"
  proof (cases "basis ks deg t p (i + 1) = 0")
    case False
    with basis_support_closed [OF assms(1), of "i + 1" p] Suc.prems
    have "t \<le> ks ! (i + Suc p + 1)" by simp
    with lo_hi Suc.IH [of "i + 1"] Suc.prems show ?thesis by (simp add: coef_right_nonneg)
  qed simp
  ultimately show ?case by simp
qed

subsection \<open>The blend from an arbitrary degree-0 row\<close>

lemma basis_eq_basis_from:
  "basis ks deg t p i = basis_from ks (\<lambda>j. if deg0_active ks deg t j then 1 else 0) t p i"
  by (induction p arbitrary: i) simp_all

lemma basis_from_cong:
  "(\<And>j. i \<le> j \<Longrightarrow> j \<le> i + p \<Longrightarrow> r j = r' j) \<Longrightarrow> basis_from ks r t p i = basis_from ks r' t p i"
proof (induction p arbitrary: i)
  case (Suc p)
  have "basis_from ks r t p i = basis_from ks r' t p i"
    and "basis_from ks r t p (i + 1) = basis_from ks r' t p (i + 1)"
    by (rule Suc.IH; simp add: Suc.prems)+
  then show ?case by simp
qed simp

lemma basis_from_add:
  "basis_from ks (\<lambda>j. r j + r' j) t p i = basis_from ks r t p i + basis_from ks r' t p i"
  by (induction p arbitrary: i) (simp_all add: algebra_simps)

lemma basis_from_span_zero:
  "k < i \<or> i + q < k \<Longrightarrow> basis_from ks (span_row k) t q i = 0"
  by (induction q arbitrary: i) auto

lemma basis_from_span_sum:
  assumes "sorted ks" and "ks ! k < ks ! (k + 1)" and "l + q = k" and "k + q < length ks"
  shows "(\<Sum>i = l..k. basis_from ks (span_row k) t q i) = 1"
  using assms(3,4)
proof (induction q arbitrary: l)
  case 0
  then show ?case by simp
next
  case (Suc q)
  let ?N = "basis_from ks (span_row k) t q"
  let ?a = "\<lambda>i. coef_left (ks ! i) (ks ! (i + Suc q)) t"
  let ?b = "\<lambda>i. coef_right (ks ! (i + 1)) (ks ! (i + Suc q + 1)) t"
  have zero_l: "?N l = 0" and zero_k1: "?N (k + 1) = 0"
    using Suc.prems by (simp_all add: basis_from_span_zero)
  have coef_sum: "?a j + ?b (j - 1) = 1" if "Suc l \<le> j" "j \<le> k" for j
  proof -
    have "ks ! j \<le> ks ! k" and "ks ! (k + 1) \<le> ks ! (j + Suc q)"
      using that Suc.prems knot_mono [OF assms(1)] by simp_all
    with assms(2) have "ks ! (j + Suc q) \<noteq> ks ! j" by simp
    moreover have "j - 1 + 1 = j" and "j - 1 + Suc q + 1 = j + Suc q"
      using that by simp_all
    ultimately show ?thesis by (simp add: coef_left_right)
  qed
  have "(\<Sum>i = l..k. basis_from ks (span_row k) t (Suc q) i)
      = (\<Sum>i = l..k. ?a i * ?N i) + (\<Sum>i = l..k. ?b i * ?N (Suc i))"
    by (simp add: sum.distrib)
  also have "(\<Sum>i = l..k. ?a i * ?N i) = (\<Sum>j = Suc l..k. ?a j * ?N j)"
    using Suc.prems zero_l by (simp add: sum.atLeast_Suc_atMost)
  also have "(\<Sum>i = l..k. ?b i * ?N (Suc i)) = (\<Sum>i = l..k - 1. ?b i * ?N (Suc i))"
    using Suc.prems zero_k1 by (cases k) (simp_all add: sum.cl_ivl_Suc)
  also have "\<dots> = (\<Sum>j = Suc l..Suc (k - 1). ?b (j - 1) * ?N j)"
    by (simp only: sum.shift_bounds_cl_Suc_ivl diff_Suc_1)
  also have "Suc (k - 1) = k"
    using Suc.prems by simp
  also have "(\<Sum>j = Suc l..k. ?a j * ?N j) + (\<Sum>j = Suc l..k. ?b (j - 1) * ?N j)
      = (\<Sum>j = Suc l..k. (?a j + ?b (j - 1)) * ?N j)"
    by (simp add: sum.distrib distrib_right)
  also have "\<dots> = (\<Sum>j = Suc l..k. ?N j)"
  proof (intro sum.cong refl)
    fix j assume "j \<in> {Suc l..k}"
    then have "?a j + ?b (j - 1) = 1" by (intro coef_sum) auto
    then show "(?a j + ?b (j - 1)) * ?N j = ?N j" by simp
  qed
  also have "\<dots> = 1"
    using Suc.prems by (intro Suc.IH) simp_all
  finally show ?case .
qed

text \<open>The same sum from index 0: the functions left of \<open>k - q\<close> vanish.\<close>

lemma basis_from_span_sum_atMost:
  assumes "sorted ks" and "ks ! k < ks ! (k + 1)" and "q \<le> k" and "k + q < length ks"
  shows "(\<Sum>i\<le>k. basis_from ks (span_row k) t q i) = 1"
proof -
  have "{..k} = {..<k - q} \<union> {k - q..k}" using assms(3) by auto
  then have "(\<Sum>i\<le>k. basis_from ks (span_row k) t q i)
      = (\<Sum>i<k - q. basis_from ks (span_row k) t q i) + (\<Sum>i = k - q..k. basis_from ks (span_row k) t q i)"
    by (simp add: sum.union_disjoint ivl_disj_int)
  also have "(\<Sum>i<k - q. basis_from ks (span_row k) t q i) = 0"
    using assms(3) by (intro sum.neutral ballI basis_from_span_zero) auto
  also have "(\<Sum>i = k - q..k. basis_from ks (span_row k) t q i) = 1"
    using assms by (intro basis_from_span_sum) simp_all
  finally show ?thesis by simp
qed

text \<open>At the left knot of its span a function of positive degree starts at 0.\<close>

lemma basis_from_span_at_left:
  "0 < q \<Longrightarrow> basis_from ks (span_row k) (ks ! k) q k = 0"
  by (cases q) (simp_all add: coef_left_at_lo basis_from_span_zero)

subsection \<open>A single non-empty span\<close>

lemma basis_single_span_row:
  assumes "single_span ks deg t k" and "i + q + 1 < length ks"
  shows "basis ks deg t q i = basis_from ks (span_row k) t q i"
  unfolding basis_eq_basis_from
  using assms by (intro basis_from_cong) (auto simp: single_span_def)

lemma basis_single_span_zero:
  assumes "single_span ks deg t k" and "i + q + 1 < length ks" and "k < i \<or> i + q < k"
  shows "basis ks deg t q i = 0"
  using assms by (simp add: basis_single_span_row basis_from_span_zero)

lemma basis_single_span_sum:
  assumes "sorted ks" and "single_span ks deg t k" and "ks ! k < ks ! (k + 1)"
    and "l + q = k" and "k + q + 1 < length ks"
  shows "(\<Sum>i = l..k. basis ks deg t q i) = 1"
proof -
  have "(\<Sum>i = l..k. basis ks deg t q i) = (\<Sum>i = l..k. basis_from ks (span_row k) t q i)"
    using assms(5) by (intro sum.cong refl basis_single_span_row [OF assms(2)]) simp
  also have "\<dots> = 1" using assms by (intro basis_from_span_sum) simp_all
  finally show ?thesis .
qed

lemma knot_span_exists:
  fixes ks :: "'a::linordered_field list"
  assumes "lo < hi" and "ks ! lo \<le> t" and "t < ks ! hi"
  shows "\<exists>k. lo \<le> k \<and> k < hi \<and> ks ! k \<le> t \<and> t < ks ! (k + 1)"
  using assms
proof (induction hi)
  case 0
  then show ?case by simp
next
  case (Suc h)
  show ?case
  proof (cases "ks ! h \<le> t")
    case True
    with Suc.prems show ?thesis by (intro exI [of _ h]) auto
  next
    case False
    then have "t < ks ! h" by simp
    moreover from this Suc.prems have "lo < h" by (cases "lo = h") auto
    ultimately obtain k where "lo \<le> k \<and> k < h \<and> ks ! k \<le> t \<and> t < ks ! (k + 1)"
      using Suc.IH Suc.prems(2) by blast
    then show ?thesis by (intro exI [of _ k]) auto
  qed
qed

lemma single_span_interior:
  assumes "sorted ks" and "deg + 2 \<le> length ks" and "t < ks ! (length ks - (deg + 1))"
    and "k + 1 < length ks" and "ks ! k \<le> t" and "t < ks ! (k + 1)"
  shows "single_span ks deg t k"
  unfolding single_span_def
proof (intro allI impI)
  fix j assume j: "j + 1 < length ks"
  have "\<not> (ks ! j \<le> t \<and> t < ks ! (j + 1))" if "j \<noteq> k"
  proof (cases "j < k")
    case True
    then have "ks ! (j + 1) \<le> ks ! k"
      using knot_mono [OF assms(1)] assms(4) by simp
    with assms(5) show ?thesis by simp
  next
    case False
    with that have "k + 1 \<le> j" by simp
    then have "ks ! (k + 1) \<le> ks ! j" using knot_mono [OF assms(1)] j by simp
    with assms(6) show ?thesis by simp
  qed
  moreover have "length ks - (deg + 2) + 1 = length ks - (deg + 1)"
    using assms(2) by simp
  ultimately show "deg0_active ks deg t j = (j = k)"
    using assms(3,5,6) by (auto simp: deg0_active_def)
qed

subsection \<open>Partition of unity and clamped ends\<close>

lemma basis_partition_of_unity:
  assumes "sorted ks" and "n = length ks - (deg + 1)" and "deg < n"
    and "ks ! deg \<le> t" and "t < ks ! n"
  shows "(\<Sum>i<n. basis ks deg t deg i) = 1"
proof -
  obtain k where k: "deg \<le> k" "k < n" "ks ! k \<le> t" "t < ks ! (k + 1)"
    using knot_span_exists [OF assms(3,4,5)] by blast
  have span: "single_span ks deg t k"
    using assms k by (intro single_span_interior) auto
  have nonempty: "ks ! k < ks ! (k + 1)"
    using k by simp
  have "(\<Sum>i<n. basis ks deg t deg i) = (\<Sum>i = k - deg..k. basis ks deg t deg i)"
  proof (rule sum.mono_neutral_right)
    show "{k - deg..k} \<subseteq> {..<n}" using k by auto
    show "\<forall>i \<in> {..<n} - {k - deg..k}. basis ks deg t deg i = 0"
      using assms(2,3) k by (auto intro!: basis_single_span_zero [OF span])
  qed simp
  also have "\<dots> = 1"
    using assms(2) k by (intro basis_single_span_sum [OF assms(1) span nonempty]) auto
  finally show ?thesis .
qed

lemma basis_left_end:
  assumes "single_span ks deg t k" and "ks ! k < ks ! (k + 1)" and "t = ks ! k"
    and "\<And>j. j \<le> k \<Longrightarrow> ks ! j = ks ! k"
    and "q \<le> k" and "i + q + 1 < length ks"
  shows "basis ks deg t q i = (if i = k - q then 1 else 0)"
  using assms(5,6)
proof (induction q arbitrary: i)
  case 0
  with assms(1) show ?case by (simp add: single_span_def)
next
  case (Suc q)
  have IH1: "basis ks deg t q i = (if i = k - q then 1 else 0)"
    and IH2: "basis ks deg t q (i + 1) = (if i + 1 = k - q then 1 else 0)"
    using Suc by (intro Suc.IH; simp)+
  consider (top) "i = k - q" | (bot) "i + 1 = k - q" | (other) "i \<noteq> k - q" "i + 1 \<noteq> k - q"
    by blast
  then show ?case
  proof cases
    case top
    have "ks ! i = t" using top assms(3) assms(4) [of i] by simp
    with IH1 IH2 top Suc.prems show ?thesis by (simp add: coef_left_at_lo)
  next
    case bot
    have "ks ! (i + 1) = t" using bot assms(3) assms(4) [of "i + 1"] by simp
    moreover have "i + Suc q + 1 = k + 1" using bot Suc.prems by arith
    then have "ks ! (i + Suc q + 1) = ks ! (k + 1)" by simp
    ultimately show ?thesis
      using IH1 IH2 bot assms(2,3) Suc.prems by (simp add: coef_right_at_lo)
  next
    case other
    with IH1 IH2 Suc.prems show ?thesis by simp
  qed
qed

lemma basis_right_end:
  assumes "single_span ks deg t k" and "ks ! k < ks ! (k + 1)" and "t = ks ! (k + 1)"
    and "\<And>j. k < j \<Longrightarrow> j < length ks \<Longrightarrow> ks ! j = ks ! (k + 1)"
    and "i + q + 1 < length ks"
  shows "basis ks deg t q i = (if i = k then 1 else 0)"
  using assms(5)
proof (induction q arbitrary: i)
  case 0
  with assms(1) show ?case by (simp add: single_span_def)
next
  case (Suc q)
  have IH1: "basis ks deg t q i = (if i = k then 1 else 0)"
    and IH2: "basis ks deg t q (i + 1) = (if i + 1 = k then 1 else 0)"
    using Suc by (intro Suc.IH; simp)+
  consider (top) "i = k" | (bot) "i + 1 = k" | (other) "i \<noteq> k" "i + 1 \<noteq> k"
    by blast
  then show ?case
  proof cases
    case top
    have "ks ! (i + Suc q) = t" using top assms(3) assms(4) [of "i + Suc q"] Suc.prems by simp
    with IH1 IH2 top assms(2,3) show ?thesis by (simp add: coef_left_at_hi)
  next
    case bot
    have "ks ! (i + Suc q + 1) = t"
      using bot assms(3) assms(4) [of "i + Suc q + 1"] Suc.prems by simp
    with IH1 IH2 bot show ?thesis by (simp add: coef_right_at_hi)
  next
    case other
    with IH1 IH2 show ?thesis by simp
  qed
qed

lemma single_span_clamped_start:
  assumes "sorted ks" and "clamped_start ks deg"
  shows "single_span ks deg (ks ! 0) deg"
  unfolding single_span_def
proof (intro allI impI)
  fix j assume j: "j + 1 < length ks"
  have len: "2 * deg + 2 \<le> length ks" and gap: "ks ! deg < ks ! (deg + 1)"
    and eq: "\<And>j. j \<le> deg \<Longrightarrow> ks ! j = ks ! 0"
    using assms(2) unfolding clamped_start_def by (meson atMost_iff)+
  show "deg0_active ks deg (ks ! 0) j = (j = deg)"
  proof (cases j deg rule: linorder_cases)
    case less
    then have "ks ! (j + 1) = ks ! 0" by (intro eq) simp
    with less len show ?thesis by (auto simp: deg0_active_def)
  next
    case equal
    with gap eq [of deg] show ?thesis by (simp add: deg0_active_def)
  next
    case greater
    then have "ks ! (deg + 1) \<le> ks ! j" and "ks ! (deg + 1) \<le> ks ! (j + 1)"
      using knot_mono [OF assms(1)] j by simp_all
    with gap eq [of deg] greater show ?thesis by (auto simp: deg0_active_def)
  qed
qed

lemma single_span_clamped_end:
  assumes "sorted ks" and "clamped_end ks deg" and "n = length ks - (deg + 1)"
  shows "single_span ks deg (ks ! n) (n - 1)"
  unfolding single_span_def
proof (intro allI impI)
  fix j assume j: "j + 1 < length ks"
  have len: "2 * deg + 2 \<le> length ks" and gap: "ks ! (n - 1) < ks ! n"
    and eq: "\<And>j. n \<le> j \<Longrightarrow> j < length ks \<Longrightarrow> ks ! j = ks ! n"
    using assms(2,3) unfolding clamped_end_def Let_def by (meson atLeastLessThan_iff)+
  have n1: "n - 1 + 1 = n" and cl: "closing_span ks deg = n - 1"
    using len assms(3) by simp_all
  show "deg0_active ks deg (ks ! n) j = (j = n - 1)"
  proof (cases j "n - 1" rule: linorder_cases)
    case less
    then have "ks ! (j + 1) \<le> ks ! (n - 1)"
      using knot_mono [OF assms(1)] assms(3) len by simp
    with less gap cl show ?thesis by (auto simp: deg0_active_def)
  next
    case equal
    with n1 cl show ?thesis by (simp add: deg0_active_def)
  next
    case greater
    then have "ks ! (j + 1) = ks ! n" using j by (intro eq) simp_all
    with greater cl show ?thesis by (auto simp: deg0_active_def)
  qed
qed

lemma basis_clamped_start:
  assumes "sorted ks" and "clamped_start ks deg" and "i + deg + 1 < length ks"
  shows "basis ks deg (ks ! 0) deg i = (if i = 0 then 1 else 0)"
proof -
  have gap: "ks ! deg < ks ! (deg + 1)" and eq0: "\<And>j. j \<le> deg \<Longrightarrow> ks ! j = ks ! 0"
    using assms(2) unfolding clamped_start_def by (meson atMost_iff)+
  have t: "ks ! 0 = ks ! deg" using eq0 [of deg] by simp
  have eq: "\<And>j. j \<le> deg \<Longrightarrow> ks ! j = ks ! deg"
    using eq0 t by metis
  from basis_left_end [OF single_span_clamped_start [OF assms(1,2)] gap t eq le_refl assms(3)]
  show ?thesis by simp
qed

lemma basis_clamped_end:
  assumes "sorted ks" and "clamped_end ks deg" and "n = length ks - (deg + 1)"
    and "i + q + 1 < length ks"
  shows "basis ks deg (ks ! n) q i = (if i = n - 1 then 1 else 0)"
proof -
  have len: "2 * deg + 2 \<le> length ks" and gap0: "ks ! (n - 1) < ks ! n"
    and eq0: "\<And>j. n \<le> j \<Longrightarrow> j < length ks \<Longrightarrow> ks ! j = ks ! n"
    using assms(2,3) unfolding clamped_end_def Let_def by (meson atLeastLessThan_iff)+
  have n1: "n - 1 + 1 = n" using len assms(3) by simp
  have gap: "ks ! (n - 1) < ks ! (n - 1 + 1)" and t: "ks ! n = ks ! (n - 1 + 1)"
    using gap0 n1 by simp_all
  have eq: "\<And>j. n - 1 < j \<Longrightarrow> j < length ks \<Longrightarrow> ks ! j = ks ! (n - 1 + 1)"
    using eq0 n1 by (metis Suc_eq_plus1 Suc_le_eq)
  from basis_right_end [OF single_span_clamped_end [OF assms(1,2,3)] gap t eq assms(4)]
  show ?thesis .
qed

lemma clamped_end_last:
  assumes "clamped_end ks deg" and "n = length ks - (deg + 1)"
  shows "last ks = ks ! n"
proof -
  have len: "2 * deg + 2 \<le> length ks"
    and eq: "\<And>j. n \<le> j \<Longrightarrow> j < length ks \<Longrightarrow> ks ! j = ks ! n"
    using assms unfolding clamped_end_def Let_def by (meson atLeastLessThan_iff)+
  have "n \<le> length ks - 1" and "length ks - 1 < length ks" and "ks \<noteq> []"
    using len assms(2) by auto
  then show ?thesis
    using eq [of "length ks - 1"] by (simp add: last_conv_nth)
qed

text \<open>On a knot vector clamped at its end the partition of unity extends to the closed
  domain \<open>[ks ! deg, ks ! n]\<close>: at the last knot the closure rule gives the single
  value 1 of the last basis function.\<close>

lemma basis_sum_closed:
  assumes "sorted ks" and "clamped_end ks deg" and "n = length ks - (deg + 1)"
    and "ks ! deg \<le> t" and "t \<le> ks ! n"
  shows "(\<Sum>i<n. basis ks deg t deg i) = 1"
proof (cases "t < ks ! n")
  case True
  have "2 * deg + 2 \<le> length ks" using assms(2) by (simp add: clamped_end_def Let_def)
  then have "deg < n" using assms(3) by simp
  with True show ?thesis using basis_partition_of_unity [OF assms(1,3)] assms(4) by simp
next
  case False
  then have t: "t = ks ! n" using assms(5) by simp
  have "2 * deg + 2 \<le> length ks" using assms(2) by (simp add: clamped_end_def Let_def)
  then have n: "0 < n" and n1: "n - 1 < n" using assms(3) by simp_all
  have B: "basis ks deg t deg i = (if i = n - 1 then 1 else 0)" if "i < n" for i
    unfolding t using that assms(3) by (intro basis_clamped_end [OF assms(1,2,3)]) simp
  show ?thesis using n1 B by (simp add: sum_single_nonzero [where j = "n - 1"])
qed

lemma clamped_start_hd:
  assumes "clamped_start ks deg"
  shows "hd ks = ks ! deg"
proof -
  have len: "2 * deg + 2 \<le> length ks" and eq: "\<And>j. j \<le> deg \<Longrightarrow> ks ! j = ks ! 0"
    using assms unfolding clamped_start_def by (meson atMost_iff)+
  then have "ks \<noteq> []" by auto
  then show ?thesis using eq [of deg] by (simp add: hd_conv_nth)
qed

lemma basis_le_one:
  assumes "sorted ks" and "n = length ks - (deg + 1)" and "deg < n"
    and "ks ! deg \<le> t" and "t < ks ! n" and "i < n"
  shows "basis ks deg t deg i \<le> 1"
proof -
  have "basis ks deg t deg i \<le> (\<Sum>j<n. basis ks deg t deg j)"
    using assms by (intro member_le_sum basis_nonneg) auto
  also have "\<dots> = 1" by (rule basis_partition_of_unity [OF assms(1-5)])
  finally show ?thesis .
qed

text \<open>On a knot vector whose end is not clamped, so that the span after the domain is
  non-empty, two degree-0 functions are active at \<open>knots[n]\<close>: the closing span by the
  closure rule, and span \<open>n\<close> by its half-open test. The basis values of full degree
  there sum to 2.\<close>

lemma basis_sum_unclamped_end:
  fixes ks :: "'a::linordered_field list"
  assumes "sorted ks" and "n = length ks - (deg + 1)" and "0 < deg" and "deg < n"
    and "ks ! (n - 1) < ks ! n" and "ks ! n < ks ! (n + 1)"
  shows "(\<Sum>i<n. basis ks deg (ks ! n) deg i) = 2"
proof -
  let ?t = "ks ! n" and ?m = "n - 1"
  have len: "n + 1 < length ks" "n - 1 + 1 = n" "closing_span ks deg = ?m"
    using assms(2-4) by auto
  have row: "(if deg0_active ks deg ?t j then 1 else 0) = span_row ?m j + span_row n j"
    if "j + 1 < length ks" for j
  proof -
    consider "j < ?m" | "j = ?m" | "j = n" | "n < j" by linarith
    then show ?thesis
    proof cases
      case 1
      then have "ks ! (j + 1) \<le> ks ! ?m" using len by (intro knot_mono [OF assms(1)]) simp_all
      with assms(5) 1 len show ?thesis by (auto simp: deg0_active_def)
    next
      case 2
      with len assms(4) show ?thesis by (simp add: deg0_active_def)
    next
      case 3
      with len assms(4,6) show ?thesis by (simp add: deg0_active_def)
    next
      case 4
      then have "ks ! (n + 1) \<le> ks ! j" using that by (intro knot_mono [OF assms(1)]) simp_all
      with assms(6) 4 len show ?thesis by (auto simp: deg0_active_def)
    qed
  qed
  have split: "basis ks deg ?t deg i
      = basis_from ks (span_row ?m) ?t deg i + basis_from ks (span_row n) ?t deg i" if "i < n" for i
    unfolding basis_eq_basis_from basis_from_add [symmetric]
    using that assms(2) by (intro basis_from_cong row) auto
  have "(\<Sum>i\<le>?m. basis_from ks (span_row ?m) ?t deg i) = 1"
    using assms(2,4,5) len by (intro basis_from_span_sum_atMost [OF assms(1)]) simp_all
  moreover have "{..<n} = {..?m}" using assms(4) by auto
  ultimately have s1: "(\<Sum>i<n. basis_from ks (span_row ?m) ?t deg i) = 1" by simp
  have "(\<Sum>i\<le>n. basis_from ks (span_row n) ?t deg i) = 1"
    using assms(2,4,6) by (intro basis_from_span_sum_atMost [OF assms(1)]) simp_all
  then have s2: "(\<Sum>i<n. basis_from ks (span_row n) ?t deg i) = 1"
    using basis_from_span_at_left [OF assms(3), of ks n] by (simp add: lessThan_Suc_atMost [symmetric])
  have "(\<Sum>i<n. basis ks deg ?t deg i)
      = (\<Sum>i<n. basis_from ks (span_row ?m) ?t deg i + basis_from ks (span_row n) ?t deg i)"
    using split by (intro sum.cong) simp_all
  with s1 s2 show ?thesis by (simp add: sum.distrib)
qed

end
