(* ===== verification/BSpline_Struct.thy ===== *)
theory BSpline_Struct
  imports BSpline_Prelude
begin

text \<open>
  The \<open>BSpline\<close> struct of \<^verbatim>\<open>src/main.rs\<close> (lines 25-30) as a record and its
  constructor \<open>BSpline::new\<close> (lines 33-37). The sample grid comes from peroxide's
  \<open>linspace\<close>, a library function outside the repository, modelled after its
  implementation: a vector of \<open>n\<close> zeros, then \<open>v[0] = start\<close>, \<open>v[n - 1] = end\<close> and
  \<open>v[i] = v[0] + step * i\<close> for \<open>0 < i < n - 1\<close>, with
  \<open>step = (end - start) / (n - 1)\<close> when \<open>n > 1\<close>. So \<open>n = 0\<close> panics on the write
  \<open>v[0]\<close>, \<open>n = 1\<close> gives \<open>[end]\<close>, and the last sample is exactly the last knot.
  \<open>linspace_values\<close> is the vector written for \<open>n > 0\<close>. \<open>new\<close> panics as the code
  does, in the order of evaluation: \<open>knots[0]\<close> on an empty knot vector, the write
  \<open>v[0]\<close> in \<open>linspace\<close> for no samples, the \<open>usize\<close> subtraction
  \<open>knots.len() - (degree + 1)\<close>, and \<open>assert_eq!\<close> on the control-point count.
\<close>

record 'a bspline =
  degree :: nat
  knots :: "'a list"
  t_values :: "'a list"
  control_points :: "'a list list"

definition linspace_values :: "'a::linordered_field \<Rightarrow> 'a \<Rightarrow> nat \<Rightarrow> 'a list" where
  "linspace_values start stop n =
     (let step = (if 1 < n then (stop - start) / (of_nat n - 1) else 0)
      in map (\<lambda>i. if i = n - 1 then stop else start + step * of_nat i) [0..<n])"

definition linspace :: "'a::linordered_field \<Rightarrow> 'a \<Rightarrow> nat \<Rightarrow> 'a list result" where
  "linspace start stop n = (if n = 0 then Inl IndexOutOfBounds else Inr (linspace_values start stop n))"

definition new :: "nat \<Rightarrow> 'a::linordered_field list \<Rightarrow> nat \<Rightarrow> 'a list list \<Rightarrow> 'a bspline result" where
  "new deg ks num_points cps =
     bind_r (idx ks 0) (\<lambda>first.
     bind_r (usub (length ks) 1) (\<lambda>last_ix.
     bind_r (idx ks last_ix) (\<lambda>last_knot.
     bind_r (linspace first last_knot num_points) (\<lambda>ts.
     bind_r (usub (length ks) (deg + 1)) (\<lambda>count.
       if length cps = count
       then Inr \<lparr>degree = deg, knots = ks, t_values = ts, control_points = cps\<rparr>
       else Inl AssertionFailed)))))"

subsection \<open>The sample grid\<close>

lemma length_linspace_values [simp]: "length (linspace_values a b n) = n"
  by (simp add: linspace_values_def Let_def)

lemma linspace_values_nth:
  "i < n \<Longrightarrow> linspace_values a b n ! i =
     (if i = n - 1 then b else a + (if 1 < n then (b - a) / (of_nat n - 1) else 0) * of_nat i)"
  by (simp add: linspace_values_def Let_def)

lemma linspace_values_Nil_iff [simp]: "linspace_values a b n = [] \<longleftrightarrow> n = 0"
  by (simp add: linspace_values_def Let_def)

lemma hd_linspace_values: "1 < n \<Longrightarrow> hd (linspace_values a b n) = a"
  by (simp add: hd_conv_nth linspace_values_nth)

lemma last_linspace_values: "0 < n \<Longrightarrow> last (linspace_values a b n) = b"
  by (simp add: last_conv_nth linspace_values_nth)

lemma linspace_values_bounds:
  fixes a b :: "'a::linordered_field"
  assumes "a \<le> b" and "x \<in> set (linspace_values a b n)"
  shows "a \<le> x \<and> x \<le> b"
proof -
  obtain i where i: "i < n" and x: "x = linspace_values a b n ! i"
    using assms(2) by (auto simp: in_set_conv_nth)
  show ?thesis
  proof (cases "1 < n \<and> i \<noteq> n - 1")
    case True
    let ?d = "of_nat n - 1 :: 'a"
    have d: "?d = of_nat (n - 1)" using True by (simp add: of_nat_diff)
    have pos: "0 < ?d" using True d by simp
    have "i \<le> n - 1" using i by simp
    then have "(of_nat i :: 'a) \<le> of_nat (n - 1)" by simp
    then have "of_nat i \<le> ?d" using d by simp
    then have le1: "of_nat i / ?d \<le> 1" and ge0: "0 \<le> of_nat i / ?d"
      using pos by simp_all
    have "(b - a) * (of_nat i / ?d) \<le> (b - a) * 1"
      using assms(1) le1 by (intro mult_left_mono) simp_all
    moreover have "0 \<le> (b - a) * (of_nat i / ?d)"
      by (rule mult_nonneg_nonneg) (use assms(1) ge0 in simp_all)
    moreover have "x = a + (b - a) * (of_nat i / ?d)"
      using True i x by (simp add: linspace_values_nth)
    ultimately show ?thesis by simp
  next
    case False
    with i x assms(1) show ?thesis by (auto simp: linspace_values_nth)
  qed
qed

subsection \<open>Construction\<close>

lemma new_nonempty:
  "ks \<noteq> [] \<Longrightarrow> new deg ks np cps =
     bind_r (linspace (hd ks) (last ks) np) (\<lambda>ts.
     bind_r (usub (length ks) (deg + 1)) (\<lambda>count.
       if length cps = count
       then Inr \<lparr>degree = deg, knots = ks, t_values = ts, control_points = cps\<rparr>
       else Inl AssertionFailed))"
proof -
  assume "ks \<noteq> []"
  then have "idx ks 0 = Inr (hd ks)" and "usub (length ks) 1 = Inr (length ks - 1)"
    and "idx ks (length ks - 1) = Inr (last ks)"
    by (simp_all add: idx_def usub_def hd_conv_nth last_conv_nth Suc_leI)
  then show ?thesis by (simp add: new_def)
qed

lemma new_Inr:
  "new deg ks np cps = Inr s \<longleftrightarrow>
     ks \<noteq> [] \<and> 0 < np \<and> deg + 1 \<le> length ks \<and> length cps + deg + 1 = length ks \<and>
     s = \<lparr>degree = deg, knots = ks, t_values = linspace_values (hd ks) (last ks) np,
          control_points = cps\<rparr>"
proof (cases "ks = []")
  case True
  then show ?thesis by (simp add: new_def)
next
  case False
  then show ?thesis
    by (cases "np = 0"; cases "deg + 1 \<le> length ks") (auto simp: new_nonempty linspace_def)
qed

lemma new_samples_range:
  assumes "sorted ks" and "new deg ks np cps = Inr s" and "t \<in> set (t_values s)"
  shows "hd (knots s) \<le> t \<and> t \<le> last (knots s)"
proof -
  have ne: "ks \<noteq> []" and s: "knots s = ks" "t_values s = linspace_values (hd ks) (last ks) np"
    using assms(2) by (simp_all add: new_Inr)
  have "hd ks \<le> last ks"
    using ne assms(1) by (simp add: hd_conv_nth last_conv_nth sorted_nth_mono)
  with assms(3) linspace_values_bounds show ?thesis unfolding s by blast
qed

subsection \<open>Properties of the constructor\<close>

text \<open>C22: \<open>BSpline::new\<close> returns the spline exactly when the knot vector is non-empty, at
  least one sample is asked for, there are at least \<open>degree + 1\<close> knots and
  \<open>knots.len() - (degree + 1)\<close> control points; otherwise it panics, in the order of the
  code: \<open>knots[0]\<close> on empty knots, the write \<open>v[0]\<close> in \<open>linspace\<close> for zero samples, the
  \<open>usize\<close> subtraction, then \<open>assert_eq!\<close>.\<close>

theorem new_spec:
  "new deg ks np cps =
     (if ks = [] then Inl IndexOutOfBounds
      else if np = 0 then Inl IndexOutOfBounds
      else if length ks < deg + 1 then Inl SubtractOverflow
      else if length cps + deg + 1 \<noteq> length ks then Inl AssertionFailed
      else Inr \<lparr>degree = deg, knots = ks, t_values = linspace_values (hd ks) (last ks) np,
                control_points = cps\<rparr>)"
proof (cases "ks = []")
  case True
  then show ?thesis by (simp add: new_def)
next
  case False
  then show ?thesis
    by (cases "np = 0"; cases "deg + 1 \<le> length ks") (auto simp: new_nonempty linspace_def)
qed

text \<open>C23: On a sorted knot vector and with more than one sample, the samples of \<open>new\<close> are
  \<open>num_points\<close> values from the first to the last knot, all of them in that range.\<close>

theorem new_samples:
  assumes "sorted ks" and "new deg ks np cps = Inr s" and "1 < np"
  shows "length (t_values s) = np \<and> hd (t_values s) = hd ks \<and> last (t_values s) = last ks
       \<and> (\<forall>t \<in> set (t_values s). hd ks \<le> t \<and> t \<le> last ks)"
proof -
  have ne: "ks \<noteq> []" and ts: "t_values s = linspace_values (hd ks) (last ks) np"
    using assms(2) by (simp_all add: new_Inr)
  have "hd ks \<le> last ks"
    using ne assms(1) by (simp add: hd_conv_nth last_conv_nth sorted_nth_mono)
  then have "\<forall>t \<in> set (t_values s). hd ks \<le> t \<and> t \<le> last ks"
    unfolding ts using linspace_values_bounds by blast
  then show ?thesis
    using assms(3) by (simp add: ts hd_linspace_values last_linspace_values)
qed

theorem new_samples_witness:
  "length (linspace_values (0::real) 1 3) = 3 \<and> hd (linspace_values (0::real) 1 3) = 0
   \<and> last (linspace_values (0::real) 1 3) = 1
   \<and> list_all (\<lambda>t. 0 \<le> t \<and> t \<le> 1) (linspace_values (0::real) 1 3)"
  using new_samples [of "[0, 0, 1, 1]" 1 3 "[[0, 0], [1, 1]]"
      "\<lparr>degree = 1, knots = [0, 0, 1, 1], t_values = linspace_values 0 1 3,
        control_points = [[0, 0], [1, 1]]\<rparr>"]
  by (simp add: new_Inr list_all_iff)

end
