(* ===== verification/Cox_de_Boor.thy ===== *)
theory Cox_de_Boor
  imports Basis BSpline_Struct
begin

text \<open>
  The table-based \<open>BSpline::cox_de_boor\<close> of \<^verbatim>\<open>src/main.rs\<close> (lines 60-92), the
  implementation the program runs. The \<open>(p + 1) \<times> (p + 1)\<close> table \<open>n\<close> is a list of
  rows; \<open>n[j][k] = v\<close> is \<open>set_cell n j k v\<close>. Every knot read is Rust's checked
  indexing (\<open>idx\<close>), in the order the expressions evaluate it, with \<open>&&\<close> and
  \<open>||\<close> short-circuiting, so a call outside the index domain panics exactly where the
  code does; the \<open>usize\<close> subtraction \<open>knots.len() - (degree + 2)\<close> panics on
  underflow. The three loops are \<open>foldM\<close>s over the Rust ranges:
  \<^item> \<open>init_deg0\<close>: \<open>for (j, n_j) in n.iter_mut().enumerate()\<close>, setting column 0
    from the degree-0 test \<open>deg0_value\<close> (line 65);
  \<^item> \<open>fill_level\<close>: \<open>for j in 0..=(p - k)\<close>, one cell per step by \<open>blend_cell\<close>
    (lines 75-87);
  \<^item> \<open>cox_de_boor\<close>: \<open>for k in 1..=p\<close> over the levels, then \<open>n[0][p]\<close>.
  Table reads \<open>n[j][k - 1]\<close> use \<open>!\<close>: they are in range, since the table keeps its
  shape (\<open>table_shape\<close>) and \<open>j + 1 \<le> p\<close>.

  The main results: with \<open>i + p + 1 < knots.len()\<close> and \<open>degree + 2 \<le> knots.len()\<close>
  the implementation returns exactly the recursive reference \<open>basis\<close> (so the table is
  the recursion, evaluated bottom-up); otherwise, for \<open>p \<ge> 1\<close>, it panics with an
  index out of bounds.
\<close>

abbreviation basis_of :: "'a::linordered_field bspline \<Rightarrow> 'a \<Rightarrow> nat \<Rightarrow> nat \<Rightarrow> 'a" where
  "basis_of s t q m \<equiv> basis (knots s) (degree s) t q m"

definition set_cell :: "'a list list \<Rightarrow> nat \<Rightarrow> nat \<Rightarrow> 'a \<Rightarrow> 'a list list" where
  "set_cell n j k v = n[j := (n ! j)[k := v]]"

definition table_shape :: "nat \<Rightarrow> 'a list list \<Rightarrow> bool" where
  "table_shape p n \<longleftrightarrow> length n = p + 1 \<and> (\<forall>r \<in> set n. length r = p + 1)"

definition deg0_value :: "'a::linordered_field bspline \<Rightarrow> 'a \<Rightarrow> nat \<Rightarrow> 'a result" where
  "deg0_value s t m =
     (let ks = knots s;
          closes = bind_r (usub (length ks) (degree s + 2)) (\<lambda>c.
                     if m = c then bind_r (idx ks (m + 1)) (\<lambda>hi. Inr (t = hi)) else Inr False)
      in bind_r (bind_r (idx ks m) (\<lambda>lo.
                   if lo \<le> t then bind_r (idx ks (m + 1)) (\<lambda>hi. if t < hi then Inr True else closes)
                   else closes))
           (\<lambda>b. Inr (if b then 1 else 0)))"

definition init_deg0 :: "'a::linordered_field bspline \<Rightarrow> 'a \<Rightarrow> nat \<Rightarrow> 'a list list \<Rightarrow> 'a list list result" where
  "init_deg0 s t i n =
     foldM (\<lambda>n j. bind_r (deg0_value s t (i + j)) (\<lambda>v. Inr (set_cell n j 0 v))) [0..<length n] n"

definition blend_cell :: "'a::linordered_field bspline \<Rightarrow> 'a \<Rightarrow> nat \<Rightarrow> nat \<Rightarrow> 'a list list \<Rightarrow> nat \<Rightarrow> 'a list list result" where
  "blend_cell s t i k n j =
     (let ks = knots s in
      bind_r (idx ks (i + j + k)) (\<lambda>a_hi. bind_r (idx ks (i + j)) (\<lambda>a_lo.
      bind_r (idx ks (i + j + k + 1)) (\<lambda>b_hi. bind_r (idx ks (i + j + 1)) (\<lambda>b_lo.
        Inr (set_cell n j k
          (coef_left a_lo a_hi t * n ! j ! (k - 1) + coef_right b_lo b_hi t * n ! (j + 1) ! (k - 1))))))))"

definition fill_level :: "'a::linordered_field bspline \<Rightarrow> 'a \<Rightarrow> nat \<Rightarrow> nat \<Rightarrow> 'a list list \<Rightarrow> nat \<Rightarrow> 'a list list result" where
  "fill_level s t p i n k = foldM (blend_cell s t i k) [0..<p - k + 1] n"

definition cox_de_boor :: "'a::linordered_field bspline \<Rightarrow> 'a \<Rightarrow> nat \<Rightarrow> nat \<Rightarrow> 'a result" where
  "cox_de_boor s t p i =
     bind_r (init_deg0 s t i (replicate (p + 1) (replicate (p + 1) 0))) (\<lambda>n.
     bind_r (foldM (fill_level s t p i) [1..<p + 1] n) (\<lambda>n.
       Inr (n ! 0 ! p)))"

subsection \<open>The table and its shape\<close>

lemma set_cell_length [simp]: "length (set_cell n j k v) = length n"
  by (simp add: set_cell_def)

lemma set_cell_nth:
  assumes "j < length n" and "k < length (n ! j)"
  shows "set_cell n j k v ! j' ! k' = (if j' = j \<and> k' = k then v else n ! j' ! k')"
  using assms by (auto simp: set_cell_def nth_list_update)

lemma table_shape_set_cell:
  assumes "table_shape p n"
  shows "table_shape p (set_cell n j k v)"
proof (cases "j < length n")
  case True
  with assms show ?thesis
    by (auto simp: table_shape_def set_cell_def dest!: set_update_subset_insert [THEN subsetD])
next
  case False
  with assms show ?thesis by (simp add: set_cell_def list_update_beyond)
qed

lemma table_shape_replicate: "table_shape p (replicate (p + 1) (replicate (p + 1) x))"
  by (simp add: table_shape_def)

text \<open>
  Filling column \<open>k\<close> row by row, each new value computed from cells outside column
  \<open>k\<close>: the loop shape of both \<open>init_deg0\<close> and \<open>fill_level\<close>.
\<close>

lemma fold_set_column:
  assumes shape: "table_shape p n" and "k \<le> p" and "J \<le> p + 1"
    and dep: "\<And>j m. j < J \<Longrightarrow> (\<forall>j' k'. k' \<noteq> k \<longrightarrow> m ! j' ! k' = n ! j' ! k') \<Longrightarrow> f j m = f j n"
  shows "table_shape p (fold (\<lambda>j m. set_cell m j k (f j m)) [0..<J] n) \<and>
    (\<forall>j' k'. fold (\<lambda>j m. set_cell m j k (f j m)) [0..<J] n ! j' ! k' =
       (if j' < J \<and> k' = k then f j' n else n ! j' ! k'))"
  using assms(3,4)
proof (induction J)
  case 0
  with shape show ?case by simp
next
  case (Suc J)
  let ?m = "fold (\<lambda>j m. set_cell m j k (f j m)) [0..<J] n"
  have J_le: "J \<le> p + 1" using Suc.prems(1) by simp
  have dep': "f j m = f j n"
    if "j < J" and "\<forall>j' k'. k' \<noteq> k \<longrightarrow> m ! j' ! k' = n ! j' ! k'" for j m
    by (rule Suc.prems(2)) (use that in simp_all)
  note IH0 = Suc.IH [OF J_le dep']
  have IH: "table_shape p ?m"
    "\<And>j' k'. ?m ! j' ! k' = (if j' < J \<and> k' = k then f j' n else n ! j' ! k')"
    using IH0 by blast+
  have unchanged: "\<forall>j' k'. k' \<noteq> k \<longrightarrow> ?m ! j' ! k' = n ! j' ! k'"
    using IH(2) by simp
  have fJ: "f J ?m = f J n"
    by (rule Suc.prems(2)) (use unchanged in simp_all)
  have J: "J < length ?m" and k: "k < length (?m ! J)"
    using IH(1) Suc.prems(1) assms(2) by (simp_all add: table_shape_def)
  have step: "fold (\<lambda>j m. set_cell m j k (f j m)) [0..<Suc J] n = set_cell ?m J k (f J n)"
    using fJ by simp
  show ?case
    unfolding step
  proof (intro conjI allI)
    show "table_shape p (set_cell ?m J k (f J n))"
      using IH(1) by (rule table_shape_set_cell)
    fix j' k'
    show "set_cell ?m J k (f J n) ! j' ! k' = (if j' < Suc J \<and> k' = k then f j' n else n ! j' ! k')"
      unfolding set_cell_nth [OF J k] IH(2) by auto
  qed
qed

subsection \<open>Each loop body computes the recursion\<close>

lemma deg0_value_ok:
  assumes "m + 1 < length (knots s)" and "degree s + 2 \<le> length (knots s)"
  shows "deg0_value s t m = Inr (basis_of s t 0 m)"
  using assms by (auto simp: deg0_value_def deg0_active_def Let_def)

lemma init_deg0_ok:
  assumes "table_shape p n" and "i + p + 1 < length (knots s)" and "degree s + 2 \<le> length (knots s)"
  shows "init_deg0 s t i n = Inr (fold (\<lambda>j m. set_cell m j 0 (basis_of s t 0 (i + j))) [0..<p + 1] n)"
proof -
  have len: "length n = p + 1" using assms(1) by (simp add: table_shape_def)
  show ?thesis
    unfolding init_deg0_def len
  proof (rule foldM_Inr)
    fix m j assume "j \<in> set [0..<p + 1]"
    then have "i + j + 1 < length (knots s)" using assms(2) by (simp only: set_upt atLeastLessThan_iff) arith
    with assms(3) show "bind_r (deg0_value s t (i + j)) (\<lambda>v. Inr (set_cell m j 0 v))
        = Inr (set_cell m j 0 (basis_of s t 0 (i + j)))"
      by (simp add: deg0_value_ok)
  qed
qed

lemma blend_cell_ok:
  assumes "i + j + k + 1 < length (knots s)"
  shows "blend_cell s t i k m j = Inr (set_cell m j k
    (coef_left (knots s ! (i + j)) (knots s ! (i + j + k)) t * m ! j ! (k - 1)
     + coef_right (knots s ! (i + j + 1)) (knots s ! (i + j + k + 1)) t * m ! (j + 1) ! (k - 1)))"
  using assms by (simp add: blend_cell_def Let_def)

lemma fill_level_ok:
  assumes "k \<le> p" and "i + p + 1 < length (knots s)"
  shows "fill_level s t p i n k = Inr (fold (\<lambda>j m. set_cell m j k
    (coef_left (knots s ! (i + j)) (knots s ! (i + j + k)) t * m ! j ! (k - 1)
     + coef_right (knots s ! (i + j + 1)) (knots s ! (i + j + k + 1)) t * m ! (j + 1) ! (k - 1)))
    [0..<p - k + 1] n)"
  unfolding fill_level_def
proof (rule foldM_Inr)
  fix m j assume "j \<in> set [0..<p - k + 1]"
  then have "i + j + k + 1 < length (knots s)"
    using assms by (simp only: set_upt atLeastLessThan_iff) arith
  then show "blend_cell s t i k m j = Inr (set_cell m j k
    (coef_left (knots s ! (i + j)) (knots s ! (i + j + k)) t * m ! j ! (k - 1)
     + coef_right (knots s ! (i + j + 1)) (knots s ! (i + j + k + 1)) t * m ! (j + 1) ! (k - 1)))"
    by (rule blend_cell_ok)
qed

subsection \<open>The table equals the recursion\<close>

lemma levels_ok:
  assumes shape: "table_shape p n" and len: "i + p + 1 < length (knots s)"
    and col0: "\<And>j. j \<le> p \<Longrightarrow> n ! j ! 0 = basis_of s t 0 (i + j)"
    and "K \<le> p"
  shows "\<exists>n'. foldM (fill_level s t p i) [1..<K + 1] n = Inr n' \<and> table_shape p n' \<and>
    (\<forall>k \<le> K. \<forall>j \<le> p - k. n' ! j ! k = basis_of s t k (i + j))"
  using assms(4)
proof (induction K)
  case 0
  with shape col0 show ?case by simp
next
  case (Suc K)
  then obtain m where m: "foldM (fill_level s t p i) [1..<K + 1] n = Inr m"
    and m_shape: "table_shape p m" and m_cells: "\<And>k j. k \<le> K \<Longrightarrow> j \<le> p - k \<Longrightarrow> m ! j ! k = basis_of s t k (i + j)"
    by auto
  let ?ks = "knots s"
  let ?f = "\<lambda>j m. coef_left (?ks ! (i + j)) (?ks ! (i + j + Suc K)) t * m ! j ! K
     + coef_right (?ks ! (i + j + 1)) (?ks ! (i + j + Suc K + 1)) t * m ! (j + 1) ! K"
  let ?m' = "fold (\<lambda>j m. set_cell m j (Suc K) (?f j m)) [0..<p - Suc K + 1] m"
  have fill: "fill_level s t p i m (Suc K) = Inr ?m'"
    using fill_level_ok [OF Suc.prems len, of t m] by simp
  have loop: "foldM (fill_level s t p i) [1..<Suc K + 1] n = Inr ?m'"
    using m fill by (simp add: foldM_snoc)
  have col: "table_shape p ?m' \<and>
    (\<forall>j' k'. ?m' ! j' ! k' = (if j' < p - Suc K + 1 \<and> k' = Suc K then ?f j' m else m ! j' ! k'))"
    by (rule fold_set_column [OF m_shape Suc.prems]) (use Suc.prems in auto)
  have cells: "?m' ! j ! k = basis_of s t k (i + j)" if "k \<le> Suc K" "j \<le> p - k" for k j
  proof (cases "k = Suc K")
    case True
    with that Suc.prems have "j < p - Suc K + 1" and "j \<le> p - K" and "j + 1 \<le> p - K" by auto
    with True col m_cells [of K j] m_cells [of K "j + 1"] show ?thesis by simp
  next
    case False
    with that col m_cells [of k j] show ?thesis by simp
  qed
  show ?case
    using loop col cells by blast
qed

lemma cox_de_boor_basis:
  assumes "i + p + 1 < length (knots s)" and "degree s + 2 \<le> length (knots s)"
  shows "cox_de_boor s t p i = Inr (basis (knots s) (degree s) t p i)"
proof -
  let ?n0 = "replicate (p + 1) (replicate (p + 1) (0::'a))"
  let ?n1 = "fold (\<lambda>j m. set_cell m j 0 (basis_of s t 0 (i + j))) [0..<p + 1] ?n0"
  have init: "init_deg0 s t i ?n0 = Inr ?n1"
    using init_deg0_ok [OF table_shape_replicate assms] .
  have col0: "table_shape p ?n1 \<and>
    (\<forall>j' k'. ?n1 ! j' ! k' = (if j' < p + 1 \<and> k' = 0 then basis_of s t 0 (i + j') else ?n0 ! j' ! k'))"
    by (rule fold_set_column [OF table_shape_replicate]) simp_all
  then obtain n' where "foldM (fill_level s t p i) [1..<p + 1] ?n1 = Inr n'"
    and "\<forall>k \<le> p. \<forall>j \<le> p - k. n' ! j ! k = basis_of s t k (i + j)"
    using levels_ok [of p ?n1 i s t p] assms(1) by auto
  with init show ?thesis by (simp add: cox_de_boor_def)
qed

subsection \<open>Calls outside the index domain\<close>

lemma cox_de_boor_panics_as_index:
  assumes "degree s + 2 \<le> length (knots s)"
  shows "panics_as IndexOutOfBounds (cox_de_boor s t p i)"
  using assms
  unfolding cox_de_boor_def init_deg0_def fill_level_def blend_cell_def deg0_value_def Let_def
  by (auto intro!: panics_as_bind_r panics_as_foldM)

lemma blend_cell_Inr_index:
  "blend_cell s t i k u j = Inr w \<Longrightarrow> i + j + k + 1 < length (knots s)"
  by (auto simp: blend_cell_def Let_def bind_r_eq_Inr idx_def split: if_splits)

lemma cox_de_boor_Inr_index:
  assumes "cox_de_boor s t p i = Inr v" and "1 \<le> p"
  shows "i + p + 1 < length (knots s)"
proof -
  from assms(1) obtain n1 n2 where "foldM (fill_level s t p i) [1..<p + 1] n1 = Inr n2"
    by (auto simp: cox_de_boor_def bind_r_eq_Inr)
  moreover have "p \<in> set [1..<p + 1]" using assms(2) by simp
  ultimately obtain u w where "fill_level s t p i u p = Inr w"
    by (blast dest: foldM_Inr_elem)
  then have "foldM (blend_cell s t i p) [0..<p - p + 1] u = Inr w"
    by (simp add: fill_level_def)
  then obtain u' w' where "blend_cell s t i p u' 0 = Inr w'"
    using foldM_Inr_elem [of "blend_cell s t i p" "[0..<p - p + 1]" u w 0] by auto
  from blend_cell_Inr_index [OF this] show ?thesis by simp
qed

text \<open>C27: for \<open>p \<ge> 1\<close> a call with \<open>i + p + 1 \<ge> knots.len()\<close> (outside the documented
  index domain) always panics with an index out of bounds; it never returns a value.\<close>

theorem cox_de_boor_out_of_range:
  assumes "1 \<le> p" and "length (knots s) \<le> i + p + 1" and "degree s + 2 \<le> length (knots s)"
  shows "cox_de_boor s t p i = Inl IndexOutOfBounds"
proof (rule panics_as_not_Inr)
  show "panics_as IndexOutOfBounds (cox_de_boor s t p i)"
    using assms(3) by (rule cox_de_boor_panics_as_index)
  show "\<nexists>v. cox_de_boor s t p i = Inr v"
    using cox_de_boor_Inr_index assms(1,2) by fastforce
qed

theorem cox_de_boor_out_of_range_witness:
  "cox_de_boor \<lparr>degree = 3, knots = [0, 0, 0, 0, 1, 2, 3, 3, 3, 3::real], t_values = [],
     control_points = []\<rparr> (1 / 2) 3 6 = Inl IndexOutOfBounds"
  by (rule cox_de_boor_out_of_range) simp_all

text \<open>C30: for \<open>p = 0\<close> the implementation does not always fail on an index outside the
  domain: with \<open>i = knots.len() - 1\<close> and \<open>t < knots[i]\<close> the short-circuit \<open>&&\<close> skips
  the out-of-range read \<open>knots[i + 1]\<close> and the call returns 0.\<close>

theorem cox_de_boor_degree0_last:
  assumes "i + 1 = length (knots s)" and "t < knots s ! i" and "degree s + 2 \<le> length (knots s)"
  shows "cox_de_boor s t 0 i = Inr 0"
proof -
  have "i \<noteq> length (knots s) - (degree s + 2)" using assms(1,3) by simp
  with assms show ?thesis
    by (simp add: cox_de_boor_def init_deg0_def deg0_value_def set_cell_def)
qed

theorem cox_de_boor_degree0_last_witness:
  "cox_de_boor \<lparr>degree = 3, knots = [0, 0, 0, 0, 1, 2, 3, 3, 3, 3::real], t_values = [],
     control_points = []\<rparr> (1 / 2) 0 9 = Inr 0"
  by (rule cox_de_boor_degree0_last) simp_all

subsection \<open>Properties of the implementation\<close>

text \<open>C1: for every index in the domain the table-based \<open>cox_de_boor\<close> returns exactly
  the value of the recursive Cox-de Boor reference (the commented-out recursion).\<close>

theorem cox_de_boor_refines_recursion:
  assumes "i + p + 1 < length (knots s)" and "degree s + 2 \<le> length (knots s)"
  shows "cox_de_boor s t p i = Inr (basis (knots s) (degree s) t p i)"
  using assms by (rule cox_de_boor_basis)

theorem cox_de_boor_refines_recursion_witness:
  "cox_de_boor \<lparr>degree = 3, knots = [0, 0, 0, 0, 1, 2, 3, 3, 3, 3::real], t_values = [],
     control_points = []\<rparr> (1 / 2) 3 1 = Inr (19 / 32)"
proof -
  have "basis [0, 0, 0, 0, 1, 2, 3, 3, 3, 3::real] 3 (1 / 2) 3 1 = 19 / 32"
    by (simp add: numeral_eq_Suc coef_left_def coef_right_def deg0_active_def)
  then show ?thesis
    using cox_de_boor_refines_recursion [of 1 3 "\<lparr>degree = 3, knots = [0, 0, 0, 0, 1, 2, 3, 3, 3, 3::real],
      t_values = [], control_points = []\<rparr>" "1 / 2"] by simp
qed

text \<open>C11: on a sorted knot vector every basis value the implementation returns is
  non-negative.\<close>

theorem cox_de_boor_nonneg:
  assumes "sorted (knots s)" and "i + p + 1 < length (knots s)" and "degree s + 2 \<le> length (knots s)"
  shows "\<exists>v. cox_de_boor s t p i = Inr v \<and> 0 \<le> v"
  using assms by (simp add: cox_de_boor_basis basis_nonneg)

theorem cox_de_boor_nonneg_witness:
  "\<exists>v. cox_de_boor \<lparr>degree = 3, knots = [0, 0, 0, 0, 1, 2, 3, 3, 3, 3::real], t_values = [],
     control_points = []\<rparr> (5 / 2) 3 2 = Inr v \<and> 0 \<le> v"
  by (rule cox_de_boor_nonneg) simp_all

text \<open>C12: in the domain \<open>[knots[degree], knots[n])\<close> every basis value of full degree lies in
  \<open>[0, 1]\<close>.\<close>

theorem cox_de_boor_le_one:
  assumes "sorted (knots s)" and "n = length (knots s) - (degree s + 1)" and "degree s < n"
    and "knots s ! degree s \<le> t" and "t < knots s ! n" and "i < n"
  shows "\<exists>v. cox_de_boor s t (degree s) i = Inr v \<and> 0 \<le> v \<and> v \<le> 1"
proof -
  have "i + degree s + 1 < length (knots s)" and "degree s + 2 \<le> length (knots s)"
    using assms(2,3,6) by linarith+
  then have "cox_de_boor s t (degree s) i = Inr (basis_of s t (degree s) i)"
    by (rule cox_de_boor_basis)
  moreover have "0 \<le> basis_of s t (degree s) i"
    using \<open>i + degree s + 1 < length (knots s)\<close> by (intro basis_nonneg [OF assms(1)]) simp
  moreover have "basis_of s t (degree s) i \<le> 1" by (rule basis_le_one [OF assms])
  ultimately show ?thesis by blast
qed

theorem cox_de_boor_le_one_witness:
  "\<exists>v. cox_de_boor \<lparr>degree = 3, knots = [0, 0, 0, 0, 1, 2, 3, 3, 3, 3::real], t_values = [],
     control_points = []\<rparr> (3 / 2) 3 2 = Inr v \<and> 0 \<le> v \<and> v \<le> 1"
  using cox_de_boor_le_one [of "\<lparr>degree = 3, knots = [0, 0, 0, 0, 1, 2, 3, 3, 3, 3::real],
      t_values = [], control_points = []\<rparr>" 6 "3 / 2" 2] by simp

text \<open>C13: local support: outside \<open>[knots[i], knots[i + p + 1])\<close> the basis value is 0,
  except at the right end of the closing span \<open>knots.len() - degree - 2\<close> when that span
  is one of those the function covers.\<close>

theorem cox_de_boor_local_support:
  assumes "sorted (knots s)" and "i + p + 1 < length (knots s)" and "degree s + 2 \<le> length (knots s)"
    and "\<not> (knots s ! i \<le> t \<and> t < knots s ! (i + p + 1))"
    and "\<not> (i \<le> closing_span (knots s) (degree s) \<and> closing_span (knots s) (degree s) \<le> i + p
            \<and> t = knots s ! (closing_span (knots s) (degree s) + 1))"
  shows "cox_de_boor s t p i = Inr 0"
proof -
  have "basis (knots s) (degree s) t p i = 0"
    using basis_support [OF assms(1,2)] assms(4,5) by blast
  with assms(2,3) show ?thesis by (simp add: cox_de_boor_basis)
qed

theorem cox_de_boor_local_support_witness:
  "cox_de_boor \<lparr>degree = 3, knots = [0, 0, 0, 0, 1, 2, 3, 3, 3, 3::real], t_values = [],
     control_points = []\<rparr> (5 / 2) 3 0 = Inr 0"
  by (rule cox_de_boor_local_support) simp_all

text \<open>C2: partition of unity: on a sorted knot vector, for \<open>t\<close> in
  \<open>[knots[degree], knots[n])\<close> with \<open>n = knots.len() - degree - 1\<close> basis functions, the
  \<open>n\<close> calls \<open>cox_de_boor(t, degree, i)\<close> all return and their values sum to 1.\<close>

theorem cox_de_boor_partition_of_unity:
  assumes "sorted (knots s)" and "n = length (knots s) - (degree s + 1)" and "degree s < n"
    and "knots s ! degree s \<le> t" and "t < knots s ! n"
  shows "\<exists>vs. mapM (\<lambda>i. cox_de_boor s t (degree s) i) [0..<n] = Inr vs \<and> sum_list vs = 1"
proof -
  have "mapM (\<lambda>i. cox_de_boor s t (degree s) i) [0..<n] = Inr (map (\<lambda>i. basis_of s t (degree s) i) [0..<n])"
    using assms(2,3) by (intro mapM_Inr cox_de_boor_basis) auto
  moreover have "sum_list (map (\<lambda>i. basis_of s t (degree s) i) [0..<n]) = 1"
    using basis_partition_of_unity [OF assms] by (simp add: sum_list_map_upt atLeast0LessThan)
  ultimately show ?thesis by blast
qed

theorem cox_de_boor_partition_of_unity_witness:
  "\<exists>vs. mapM (\<lambda>i. cox_de_boor \<lparr>degree = 3, knots = [0, 0, 0, 0, 1, 2, 3, 3, 3, 3::real],
     t_values = [], control_points = []\<rparr> (1 / 2) 3 i) [0..<6] = Inr vs \<and> sum_list vs = 1"
  using cox_de_boor_partition_of_unity [of "\<lparr>degree = 3, knots = [0, 0, 0, 0, 1, 2, 3, 3, 3, 3::real],
     t_values = [], control_points = []\<rparr>" 6 "1 / 2"] by simp

text \<open>C14: right-edge coverage: on a sorted knot vector whose last \<open>degree + 1\<close> knots are
  equal (clamped end), the basis values at the last knot also sum to 1; the closure rule
  of the degree-0 test supplies the value the half-open spans leave out.\<close>

theorem cox_de_boor_right_edge:
  assumes "sorted (knots s)" and "clamped_end (knots s) (degree s)"
    and "n = length (knots s) - (degree s + 1)"
  shows "\<exists>vs. mapM (\<lambda>i. cox_de_boor s (last (knots s)) (degree s) i) [0..<n] = Inr vs \<and> sum_list vs = 1"
proof -
  let ?ks = "knots s" and ?d = "degree s"
  have len: "2 * ?d + 2 \<le> length ?ks"
    and eq: "\<And>j. n \<le> j \<Longrightarrow> j < length ?ks \<Longrightarrow> ?ks ! j = ?ks ! n"
    using assms(2,3) unfolding clamped_end_def Let_def by (meson atLeastLessThan_iff)+
  have "n \<le> length ?ks - 1" and "length ?ks - 1 < length ?ks" and "?ks \<noteq> []"
    using len assms(3) by auto
  then have last: "last ?ks = ?ks ! n"
    using eq [of "length ?ks - 1"] by (simp add: last_conv_nth)
  have "mapM (\<lambda>i. cox_de_boor s (last ?ks) ?d i) [0..<n]
      = Inr (map (\<lambda>i. if i = n - 1 then 1 else 0) [0..<n])"
    unfolding last
  proof (rule mapM_Inr)
    fix i assume "i \<in> set [0..<n]"
    then have i: "i + ?d + 1 < length ?ks" using assms(3) by auto
    have "?d + 2 \<le> length ?ks" using len by simp
    with i have "cox_de_boor s (?ks ! n) ?d i = Inr (basis ?ks ?d (?ks ! n) ?d i)"
      by (rule cox_de_boor_basis)
    then show "cox_de_boor s (?ks ! n) ?d i = Inr (if i = n - 1 then 1 else 0)"
      unfolding basis_clamped_end [OF assms(1,2,3) i] .
  qed
  moreover have "sum_list (map (\<lambda>i. if i = n - 1 then (1::'a) else 0) [0..<n]) = 1"
    using len assms(3) by (simp add: sum_list_map_upt atLeast0LessThan)
  ultimately show ?thesis by blast
qed

theorem cox_de_boor_right_edge_witness:
  "\<exists>vs. mapM (\<lambda>i. cox_de_boor \<lparr>degree = 3, knots = [0, 0, 0, 0, 1, 2, 3, 3, 3, 3::real],
     t_values = [], control_points = []\<rparr> 3 3 i) [0..<6] = Inr vs \<and> sum_list vs = 1"
  using cox_de_boor_right_edge [of "\<lparr>degree = 3, knots = [0, 0, 0, 0, 1, 2, 3, 3, 3, 3::real],
     t_values = [], control_points = []\<rparr>" 6]
  by (simp add: clamped_end_def atLeastLessThan_upt upt_rec)

text \<open>C15: the closure rule compares against the configured degree even when a lower degree
  \<open>p \<le> degree\<close> is evaluated. On a sorted knot vector clamped at its end this is harmless:
  at the last knot, the \<open>knots.len() - (p + 1)\<close> calls \<open>cox_de_boor(last, p, i)\<close> all return;
  exactly the closing span \<open>knots.len() - degree - 2\<close> has value 1, and every other call
  returns 0.\<close>

theorem cox_de_boor_right_edge_subdegree:
  assumes "sorted (knots s)" and "clamped_end (knots s) (degree s)" and "p \<le> degree s"
  shows "mapM (\<lambda>i. cox_de_boor s (last (knots s)) p i) [0..<length (knots s) - (p + 1)]
       = Inr (map (\<lambda>i. if i = length (knots s) - (degree s + 2) then 1 else 0) [0..<length (knots s) - (p + 1)])"
proof (rule mapM_Inr)
  let ?ks = "knots s" and ?n = "length (knots s) - (degree s + 1)"
  fix i assume "i \<in> set [0..<length ?ks - (p + 1)]"
  then have i: "i + p + 1 < length ?ks" by auto
  have len: "degree s + 2 \<le> length ?ks" and "?n - 1 = length ?ks - (degree s + 2)"
    using assms(2) by (auto simp: clamped_end_def Let_def)
  moreover have "cox_de_boor s (?ks ! ?n) p i = Inr (basis ?ks (degree s) (?ks ! ?n) p i)"
    using i len by (rule cox_de_boor_basis)
  ultimately show "cox_de_boor s (last ?ks) p i = Inr (if i = length ?ks - (degree s + 2) then 1 else 0)"
    using basis_clamped_end [OF assms(1,2) refl i] clamped_end_last [OF assms(2) refl] by simp
qed

theorem cox_de_boor_right_edge_subdegree_witness:
  "mapM (\<lambda>i. cox_de_boor \<lparr>degree = 3, knots = [0, 0, 0, 0, 1, 2, 3, 3, 3, 3::real], t_values = [],
       control_points = []\<rparr> 3 2 i) [0..<7] = Inr [0, 0, 0, 0, 0, 1, 0]"
  using cox_de_boor_right_edge_subdegree [of "\<lparr>degree = 3, knots = [0, 0, 0, 0, 1, 2, 3, 3, 3, 3::real],
      t_values = [], control_points = []\<rparr>" 2]
  by (simp add: clamped_end_def atLeastLessThan_upt upt_rec)

text \<open>C29: the closure rule counts the right end of the domain twice when the knot vector
  is not clamped at its end. Take a sorted knot vector of positive degree whose closing span
  \<open>[knots[n - 1], knots[n])\<close> and the span \<open>[knots[n], knots[n + 1])\<close> after the domain are
  both non-empty. At \<open>t = knots[n]\<close> the degree-0 test holds for the closing span through the
  closure rule, and for span \<open>n\<close> through the half-open test. So the \<open>n\<close> calls
  \<open>cox_de_boor(t, degree, i)\<close> all return, and their values sum to 2, not 1.\<close>

theorem cox_de_boor_closure_double_count:
  assumes "sorted (knots s)" and "n = length (knots s) - (degree s + 1)" and "0 < degree s"
    and "degree s < n" and "knots s ! (n - 1) < knots s ! n" and "knots s ! n < knots s ! (n + 1)"
  shows "\<exists>vs. mapM (\<lambda>i. cox_de_boor s (knots s ! n) (degree s) i) [0..<n] = Inr vs \<and> sum_list vs = 2"
proof -
  have "mapM (\<lambda>i. cox_de_boor s (knots s ! n) (degree s) i) [0..<n]
      = Inr (map (\<lambda>i. basis_of s (knots s ! n) (degree s) i) [0..<n])"
    using assms(2,4) by (intro mapM_Inr cox_de_boor_basis) auto
  moreover have "sum_list (map (\<lambda>i. basis_of s (knots s ! n) (degree s) i) [0..<n]) = 2"
    using basis_sum_unclamped_end [OF assms] by (simp add: sum_list_map_upt atLeast0LessThan)
  ultimately show ?thesis by blast
qed

theorem cox_de_boor_closure_double_count_witness:
  "\<exists>vs. mapM (\<lambda>i. cox_de_boor \<lparr>degree = 1, knots = [0, 1, 2, 3::real], t_values = [],
     control_points = []\<rparr> 2 1 i) [0..<2] = Inr vs \<and> sum_list vs = 2"
  using cox_de_boor_closure_double_count [of "\<lparr>degree = 1, knots = [0, 1, 2, 3::real], t_values = [],
     control_points = []\<rparr>" 2] by simp

end
