(* ===== verification/Sampler.thy ===== *)
theory Sampler
  imports Cox_de_Boor
begin

text \<open>
  \<open>BSpline::generate_bases\<close> (\<^verbatim>\<open>src/main.rs\<close>, lines 94-100): for every basis
  index \<open>i\<close> in \<open>0..knots.len() - (degree + 1)\<close> (a \<open>usize\<close> subtraction) it pushes
  the row \<open>t_values.fmap(|x| cox_de_boor(x, degree, i))\<close>. The loop is a \<open>foldM\<close>
  over the index range whose body maps \<open>cox_de_boor\<close> over the samples (\<open>mapM\<close>)
  and appends the row. The lemma \<open>generate_bases_basis\<close> gives the whole result: row
  \<open>i\<close> is basis function \<open>i\<close> sampled at every parameter value, and nothing panics.
\<close>

definition generate_bases :: "'a::linordered_field bspline \<Rightarrow> 'a list list result" where
  "generate_bases s =
     bind_r (usub (length (knots s)) (degree s + 1)) (\<lambda>count.
     foldM (\<lambda>bases i. bind_r (mapM (\<lambda>x. cox_de_boor s x (degree s) i) (t_values s))
                              (\<lambda>row. Inr (bases @ [row])))
           [0..<count] [])"

lemma generate_bases_basis:
  assumes "degree s + 1 \<le> length (knots s)"
  shows "generate_bases s = Inr (map (\<lambda>i. map (\<lambda>x. basis (knots s) (degree s) x (degree s) i) (t_values s))
                                     [0..<length (knots s) - (degree s + 1)])"
proof -
  let ?row = "\<lambda>i. map (\<lambda>x. basis (knots s) (degree s) x (degree s) i) (t_values s)"
  have "foldM (\<lambda>bases i. bind_r (mapM (\<lambda>x. cox_de_boor s x (degree s) i) (t_values s))
                              (\<lambda>row. Inr (bases @ [row])))
           [0..<length (knots s) - (degree s + 1)] []
      = Inr (fold (\<lambda>i bases. bases @ [?row i]) [0..<length (knots s) - (degree s + 1)] [])"
  proof (rule foldM_Inr)
    fix bases i assume "i \<in> set [0..<length (knots s) - (degree s + 1)]"
    then have "i + degree s + 1 < length (knots s)" and "degree s + 2 \<le> length (knots s)"
      by auto
    then have "mapM (\<lambda>x. cox_de_boor s x (degree s) i) (t_values s) = Inr (?row i)"
      by (intro mapM_Inr cox_de_boor_basis) simp_all
    then show "bind_r (mapM (\<lambda>x. cox_de_boor s x (degree s) i) (t_values s)) (\<lambda>row. Inr (bases @ [row]))
        = Inr (bases @ [?row i])" by simp
  qed
  with assms show ?thesis
    by (simp add: generate_bases_def fold_push)
qed

lemma generate_bases_underflow:
  "length (knots s) < degree s + 1 \<Longrightarrow> generate_bases s = Inl SubtractOverflow"
  by (simp add: generate_bases_def)

text \<open>The loop pushing one row per basis index is a map over the indices: each row has
  one value per sample, and there is one row per index.\<close>

lemma generate_bases_mapM:
  "generate_bases s = bind_r (usub (length (knots s)) (degree s + 1)) (\<lambda>count.
     mapM (\<lambda>i. mapM (\<lambda>x. cox_de_boor s x (degree s) i) (t_values s)) [0..<count])"
  by (simp add: generate_bases_def foldM_push)

lemma generate_bases_rows:
  assumes "generate_bases s = Inr bases"
  shows "length bases = length (knots s) - (degree s + 1)
       \<and> list_all (\<lambda>r. length r = length (t_values s)) bases"
proof -
  from assms have le: "degree s + 1 \<le> length (knots s)"
    by (cases "degree s + 1 \<le> length (knots s)") (simp_all add: generate_bases_def)
  then have m: "mapM (\<lambda>i. mapM (\<lambda>x. cox_de_boor s x (degree s) i) (t_values s))
      [0..<length (knots s) - (degree s + 1)] = Inr bases"
    using assms by (simp add: generate_bases_mapM)
  have "length r = length (t_values s)" if "r \<in> set bases" for r
  proof -
    obtain k where k: "k < length bases" "r = bases ! k" using \<open>r \<in> set bases\<close>
      by (auto simp: in_set_conv_nth)
    then have "k < length [0..<length (knots s) - (degree s + 1)]" using mapM_Inr_length [OF m] by simp
    from mapM_Inr_nth [OF m this] k show ?thesis by (simp add: mapM_Inr_length)
  qed
  then show ?thesis using mapM_Inr_length [OF m] by (simp add: list_all_iff)
qed

subsection \<open>Shape and support of the bases\<close>

text \<open>C17: \<open>generate_bases\<close> returns a matrix with one row per basis function,
  \<open>knots.len() - (degree + 1)\<close> rows, each with one value per parameter sample.\<close>

theorem generate_bases_shape:
  assumes "degree s + 1 \<le> length (knots s)"
  shows "\<exists>bases. generate_bases s = Inr bases \<and> length bases = length (knots s) - (degree s + 1)
           \<and> list_all (\<lambda>r. length r = length (t_values s)) bases"
  using generate_bases_basis [OF assms] generate_bases_rows by blast

theorem generate_bases_shape_witness:
  "\<exists>bases. generate_bases \<lparr>degree = 1, knots = [0, 0, 1, 1::real], t_values = [0, 1 / 2, 1],
       control_points = []\<rparr> = Inr bases \<and> length bases = 2 \<and> list_all (\<lambda>r. length r = 3) bases"
  using generate_bases_shape [of "\<lparr>degree = 1, knots = [0, 0, 1, 1::real], t_values = [0, 1 / 2, 1],
       control_points = []\<rparr>"] by (simp add: eval_nat_numeral)

text \<open>C16: on a sorted knot vector, row \<open>i\<close> of the bases is zero at every sample outside
  \<open>[knots[i], knots[i + degree + 1]]\<close>: each basis function is supported on at most
  \<open>degree + 1\<close> knot spans.\<close>

theorem generate_bases_local_support:
  assumes "sorted (knots s)" and "generate_bases s = Inr bases" and "i < length bases"
    and "j < length (t_values s)" and "bases ! i ! j \<noteq> 0"
  shows "knots s ! i \<le> t_values s ! j \<and> t_values s ! j \<le> knots s ! (i + degree s + 1)"
proof -
  have le: "degree s + 1 \<le> length (knots s)"
    using assms(2) by (cases "degree s + 1 \<le> length (knots s)") (simp_all add: generate_bases_def)
  with assms(2) have b: "bases = map (\<lambda>i. map (\<lambda>x. basis (knots s) (degree s) x (degree s) i) (t_values s))
      [0..<length (knots s) - (degree s + 1)]"
    by (simp add: generate_bases_basis)
  with assms(3) have i: "i + degree s + 1 < length (knots s)" by simp
  have "basis (knots s) (degree s) (t_values s ! j) (degree s) i \<noteq> 0"
    using assms(3-5) b by simp
  from basis_support_closed [OF assms(1) i this] show ?thesis .
qed

theorem generate_bases_local_support_witness:
  "generate_bases \<lparr>degree = 1, knots = [0, 0, 1, 1::real], t_values = [0, 1 / 2, 1], control_points = []\<rparr>
     = Inr [[1, 1 / 2, 0], [0, 1 / 2, 1]]
   \<and> [0, 0, 1, 1::real] ! 0 \<le> [0, 1 / 2, 1::real] ! 1 \<and> [0, 1 / 2, 1::real] ! 1 \<le> [0, 0, 1, 1::real] ! 2"
proof -
  let ?s = "\<lparr>degree = 1, knots = [0, 0, 1, 1::real], t_values = [0, 1 / 2, 1], control_points = []\<rparr>"
  have gb: "generate_bases ?s = Inr [[1, 1 / 2, 0], [0, 1 / 2, 1]]"
    by (simp add: generate_bases_def cox_de_boor_def init_deg0_def deg0_value_def set_cell_def
        fill_level_def blend_cell_def coef_left_def coef_right_def)
  from generate_bases_local_support [OF _ gb, of 0 1] gb show ?thesis by simp
qed

end
