(* ===== verification/Interpolate.thy ===== *)
theory Interpolate
  imports Cox_de_Boor
begin

text \<open>
  \<open>BSpline::interpolate\<close> (\<^verbatim>\<open>src/main.rs\<close>, lines 118-133). For every sample
  \<open>t\<close> the inner loop over \<open>0..control_points.len()\<close> adds
  \<open>basis * control_points[i][0]\<close> to \<open>x_val\<close> and \<open>basis * control_points[i][1]\<close>
  to \<open>y_val\<close> (\<open>interp_step\<close>; the reads of a control point's coordinates are checked
  and panic on a point with fewer than two coordinates); \<open>interp_point\<close> runs that loop
  from \<open>(0, 0)\<close>, and \<open>interpolate\<close> pushes each pair onto the two output vectors.
  \<open>interpolate_sums\<close> gives the result as the weighted sums of the control points, and
  \<open>interp_point_clamped_start\<close>/\<open>_end\<close> the curve's end points on a clamped knot vector.
\<close>

definition interp_step :: "'a::linordered_field bspline \<Rightarrow> 'a \<Rightarrow> 'a \<times> 'a \<Rightarrow> nat \<Rightarrow> ('a \<times> 'a) result" where
  "interp_step s t acc i =
     (case acc of (x_val, y_val) \<Rightarrow>
       bind_r (cox_de_boor s t (degree s) i) (\<lambda>b.
       bind_r (bind_r (idx (control_points s) i) (\<lambda>cp. idx cp 0)) (\<lambda>c0.
       bind_r (bind_r (idx (control_points s) i) (\<lambda>cp. idx cp 1)) (\<lambda>c1.
         Inr (x_val + b * c0, y_val + b * c1)))))"

definition interp_point :: "'a::linordered_field bspline \<Rightarrow> 'a \<Rightarrow> ('a \<times> 'a) result" where
  "interp_point s t = foldM (interp_step s t) [0..<length (control_points s)] (0, 0)"

definition interpolate :: "'a::linordered_field bspline \<Rightarrow> ('a list \<times> 'a list) result" where
  "interpolate s =
     foldM (\<lambda>(xs, ys) t. bind_r (interp_point s t) (\<lambda>(x_val, y_val). Inr (xs @ [x_val], ys @ [y_val])))
           (t_values s) ([], [])"

text \<open>
  \<open>well_formed s\<close>: the invariant \<open>BSpline::new\<close> establishes
  (\<open>control_points.len() == knots.len() - (degree + 1)\<close>), with at least one control point
  and two coordinates per control point, as \<open>interpolate\<close> reads them.
\<close>

definition well_formed :: "'a::linordered_field bspline \<Rightarrow> bool" where
  "well_formed s \<longleftrightarrow> length (control_points s) + degree s + 1 = length (knots s)
     \<and> control_points s \<noteq> [] \<and> (\<forall>cp \<in> set (control_points s). 2 \<le> length cp)"

abbreviation curve_x :: "'a::linordered_field bspline \<Rightarrow> 'a \<Rightarrow> 'a" where
  "curve_x s t \<equiv> \<Sum>i<length (control_points s). basis_of s t (degree s) i * control_points s ! i ! 0"

abbreviation curve_y :: "'a::linordered_field bspline \<Rightarrow> 'a \<Rightarrow> 'a" where
  "curve_y s t \<equiv> \<Sum>i<length (control_points s). basis_of s t (degree s) i * control_points s ! i ! 1"

subsection \<open>The weighted sums\<close>

lemma fold_weighted_sums:
  "fold (\<lambda>i (x, y). (x + b i * c i, y + b i * d i)) [0..<n] (0, 0)
     = (\<Sum>i<n. b i * c i, \<Sum>i<n. b i * d i)"
  by (induction n) simp_all

lemma interp_step_ok:
  assumes "well_formed s" and "i < length (control_points s)"
  shows "interp_step s t (x, y) i =
    Inr (x + basis_of s t (degree s) i * control_points s ! i ! 0,
         y + basis_of s t (degree s) i * control_points s ! i ! 1)"
proof -
  have "2 \<le> length (control_points s ! i)"
    using assms by (simp add: well_formed_def)
  then have "0 < length (control_points s ! i)" and "1 < length (control_points s ! i)"
    by arith+
  moreover have "i + degree s + 1 < length (knots s)" and "degree s + 2 \<le> length (knots s)"
    using assms by (auto simp: well_formed_def)
  ultimately show ?thesis
    using assms(2) by (simp add: interp_step_def cox_de_boor_basis)
qed

lemma interp_point_ok:
  assumes "well_formed s"
  shows "interp_point s t = Inr (curve_x s t, curve_y s t)"
proof -
  have "interp_point s t = Inr (fold (\<lambda>i (x, y). (x + basis_of s t (degree s) i * control_points s ! i ! 0,
      y + basis_of s t (degree s) i * control_points s ! i ! 1)) [0..<length (control_points s)] (0, 0))"
    unfolding interp_point_def
    by (rule foldM_Inr) (auto simp: interp_step_ok [OF assms] split: prod.splits)
  then show ?thesis by (simp only: fold_weighted_sums)
qed

lemma fold_push_pairs:
  "fold (\<lambda>t (xs, ys). (xs @ [f t], ys @ [g t])) ts (xs0, ys0) = (xs0 @ map f ts, ys0 @ map g ts)"
  by (induction ts arbitrary: xs0 ys0) simp_all

lemma interpolate_sums:
  assumes "well_formed s"
  shows "interpolate s = Inr (map (curve_x s) (t_values s), map (curve_y s) (t_values s))"
proof -
  have "interpolate s = Inr (fold (\<lambda>t (xs, ys). (xs @ [curve_x s t], ys @ [curve_y s t])) (t_values s) ([], []))"
    unfolding interpolate_def
    by (rule foldM_Inr) (auto simp: interp_point_ok [OF assms] split: prod.splits)
  then show ?thesis by (simp only: fold_push_pairs) simp
qed

subsection \<open>Panics\<close>

text \<open>The outer loop of \<open>interpolate\<close> is a map over the samples: the two vectors have one
  entry per sample.\<close>

lemma interpolate_mapM:
  "interpolate s = bind_r (mapM (interp_point s) (t_values s)) (\<lambda>ps. Inr (map fst ps, map snd ps))"
  unfolding interpolate_def by (simp add: foldM_push_pairs)

lemma interpolate_lengths:
  "interpolate s = Inr (xs, ys) \<Longrightarrow> length xs = length (t_values s) \<and> length ys = length (t_values s)"
  by (auto simp: interpolate_mapM bind_r_eq_Inr dest: mapM_Inr_length)

lemma interpolate_panics_as_index:
  assumes "length (control_points s) + degree s + 1 = length (knots s)"
  shows "panics_as IndexOutOfBounds (interpolate s)"
proof -
  have cdb: "panics_as IndexOutOfBounds (cox_de_boor s t (degree s) i)"
    if "i < length (control_points s)" for t i
    using that assms by (intro cox_de_boor_panics_as_index) simp
  have "panics_as IndexOutOfBounds (interp_point s t)" for t
    unfolding interp_point_def interp_step_def
    by (intro panics_as_foldM) (auto intro!: panics_as_bind_r cdb split: prod.splits)
  then show ?thesis
    unfolding interpolate_def
    by (intro panics_as_foldM) (auto intro!: panics_as_bind_r split: prod.splits)
qed

lemma interp_step_Inr_coords:
  "interp_step s t acc i = Inr r \<Longrightarrow> 1 < length (control_points s ! i)"
  by (cases acc) (auto simp: interp_step_def bind_r_eq_Inr idx_def split: if_splits)

lemma interpolate_short_point:
  assumes "length (control_points s) + degree s + 1 = length (knots s)"
    and "t_values s \<noteq> []" and "i < length (control_points s)"
    and "length (control_points s ! i) < 2"
  shows "interpolate s = Inl IndexOutOfBounds"
proof (rule panics_as_not_Inr)
  show "panics_as IndexOutOfBounds (interpolate s)"
    using assms(1) by (rule interpolate_panics_as_index)
  show "\<nexists>v. interpolate s = Inr v"
  proof
    assume "\<exists>v. interpolate s = Inr v"
    then obtain v where "interpolate s = Inr v" by blast
    moreover have "hd (t_values s) \<in> set (t_values s)" using assms(2) by simp
    ultimately obtain u w where
      "(\<lambda>(xs, ys) t. bind_r (interp_point s t) (\<lambda>(x_val, y_val). Inr (xs @ [x_val], ys @ [y_val])))
         u (hd (t_values s)) = Inr w"
      unfolding interpolate_def by (blast dest: foldM_Inr_elem)
    then obtain r where "interp_point s (hd (t_values s)) = Inr r"
      by (cases u) (auto simp: bind_r_eq_Inr)
    moreover have "i \<in> set [0..<length (control_points s)]" using assms(3) by simp
    ultimately obtain u' w' where "interp_step s (hd (t_values s)) u' i = Inr w'"
      unfolding interp_point_def by (blast dest: foldM_Inr_elem)
    with assms(4) show False by (auto dest: interp_step_Inr_coords)
  qed
qed

subsection \<open>End points and bounds\<close>

lemma curve_at_clamped_start:
  assumes "well_formed s" and "sorted (knots s)" and "clamped_start (knots s) (degree s)"
  shows "curve_x s (knots s ! 0) = control_points s ! 0 ! 0 \<and>
         curve_y s (knots s ! 0) = control_points s ! 0 ! 1"
proof -
  have n: "0 < length (control_points s)" and len: "length (control_points s) + degree s + 1 = length (knots s)"
    using assms(1) by (auto simp: well_formed_def)
  have B: "basis_of s (knots s ! 0) (degree s) i = (if i = 0 then 1 else 0)"
    if "i < length (control_points s)" for i
    using that len by (intro basis_clamped_start [OF assms(2,3)]) simp
  show ?thesis
    using n by (simp add: sum_single_nonzero [where j = 0] B)
qed

lemma curve_at_clamped_end:
  assumes "well_formed s" and "sorted (knots s)" and "clamped_end (knots s) (degree s)"
    and "n = length (control_points s)"
  shows "curve_x s (knots s ! n) = control_points s ! (n - 1) ! 0 \<and>
         curve_y s (knots s ! n) = control_points s ! (n - 1) ! 1"
proof -
  have n: "0 < n" and len: "n = length (knots s) - (degree s + 1)"
    using assms(1,4) by (auto simp: well_formed_def)
  have B: "basis_of s (knots s ! n) (degree s) i = (if i = n - 1 then 1 else 0)"
    if "i < n" for i
    using that len by (intro basis_clamped_end [OF assms(2,3) len]) simp
  have "(\<Sum>i<n. basis_of s (knots s ! n) (degree s) i * control_points s ! i ! c)
      = basis_of s (knots s ! n) (degree s) (n - 1) * control_points s ! (n - 1) ! c" for c
    by (rule sum_single_nonzero) (simp_all add: n B)
  then show ?thesis
    unfolding assms(4) [symmetric] using n by (simp add: B)
qed

lemma curve_coord_bounds:
  assumes "well_formed s" and "sorted (knots s)"
    and "(\<Sum>i<length (control_points s). basis_of s t (degree s) i) = 1"
    and "\<forall>cp \<in> set (control_points s). lo \<le> cp ! c \<and> cp ! c \<le> hi"
  shows "lo \<le> (\<Sum>i<length (control_points s). basis_of s t (degree s) i * control_points s ! i ! c)
       \<and> (\<Sum>i<length (control_points s). basis_of s t (degree s) i * control_points s ! i ! c) \<le> hi"
proof (rule convex_comb_bounds [OF assms(3)])
  have len: "length (control_points s) + degree s + 1 = length (knots s)"
    using assms(1) by (simp add: well_formed_def)
  show "0 \<le> basis_of s t (degree s) i" if "i < length (control_points s)" for i
    using that len by (intro basis_nonneg [OF assms(2)]) simp
  show "lo \<le> control_points s ! i ! c \<and> control_points s ! i ! c \<le> hi"
    if "i < length (control_points s)" for i
    using that assms(4) by simp
qed

lemma new_well_formed:
  assumes "new deg ks np cps = Inr s" and "cps \<noteq> []" and "\<forall>cp \<in> set cps. 2 \<le> length cp"
  shows "well_formed s"
  using assms by (auto simp: new_Inr well_formed_def)

text \<open>With clamped ends every sample between the first and the last knot lies in the
  closed domain, where the weights sum to 1: each coordinate of the curve stays within
  the bounds of that coordinate of the control points.\<close>

lemma curve_weights_closed:
  assumes "well_formed s" and "sorted (knots s)"
    and "clamped_start (knots s) (degree s)" and "clamped_end (knots s) (degree s)"
    and "hd (knots s) \<le> t" and "t \<le> last (knots s)"
  shows "(\<Sum>i<length (control_points s). basis_of s t (degree s) i) = 1"
proof -
  let ?n = "length (control_points s)"
  have n: "?n = length (knots s) - (degree s + 1)"
    using assms(1) unfolding well_formed_def by linarith
  have "knots s ! degree s \<le> t" using assms(5) clamped_start_hd [OF assms(3)] by simp
  moreover have "t \<le> knots s ! ?n" using assms(6) clamped_end_last [OF assms(4) n] by simp
  ultimately show ?thesis by (rule basis_sum_closed [OF assms(2,4) n])
qed

lemma curve_in_hull:
  assumes "well_formed s" and "sorted (knots s)"
    and "clamped_start (knots s) (degree s)" and "clamped_end (knots s) (degree s)"
    and "hd (knots s) \<le> t" and "t \<le> last (knots s)"
    and "\<forall>cp \<in> set (control_points s). lo \<le> cp ! c \<and> cp ! c \<le> hi"
  shows "lo \<le> (\<Sum>i<length (control_points s). basis_of s t (degree s) i * control_points s ! i ! c)
       \<and> (\<Sum>i<length (control_points s). basis_of s t (degree s) i * control_points s ! i ! c) \<le> hi"
  by (rule curve_coord_bounds [OF assms(1,2) curve_weights_closed [OF assms(1-6)] assms(7)])

text \<open>Where the weights sum to 1, translating every control point translates the curve.\<close>

lemma curve_translate:
  assumes "(\<Sum>i<length (control_points s). basis_of s t (degree s) i) = 1"
  shows "curve_x (s\<lparr>control_points := map (\<lambda>cp. [cp ! 0 + dx, cp ! 1 + dy]) (control_points s)\<rparr>) t
           = curve_x s t + dx
       \<and> curve_y (s\<lparr>control_points := map (\<lambda>cp. [cp ! 0 + dx, cp ! 1 + dy]) (control_points s)\<rparr>) t
           = curve_y s t + dy"
proof -
  let ?n = "length (control_points s)" and ?B = "\<lambda>i. basis_of s t (degree s) i"
  let ?cps = "map (\<lambda>cp. [cp ! 0 + dx, cp ! 1 + dy]) (control_points s)"
  have "(\<Sum>i<?n. ?B i * ?cps ! i ! 0) = (\<Sum>i<?n. ?B i * (control_points s ! i ! 0 + dx))"
    and "(\<Sum>i<?n. ?B i * ?cps ! i ! 1) = (\<Sum>i<?n. ?B i * (control_points s ! i ! 1 + dy))"
    by (auto intro: sum.cong)
  then show ?thesis by (simp add: sum_affine [OF assms])
qed

lemma curve_ends:
  assumes "well_formed s" and "sorted (knots s)"
    and "clamped_start (knots s) (degree s)" and "clamped_end (knots s) (degree s)"
    and "t_values s \<noteq> []" and "hd (t_values s) = hd (knots s)" and "last (t_values s) = last (knots s)"
  shows "hd (map (curve_x s) (t_values s)) = hd (control_points s) ! 0
       \<and> hd (map (curve_y s) (t_values s)) = hd (control_points s) ! 1
       \<and> last (map (curve_x s) (t_values s)) = last (control_points s) ! 0
       \<and> last (map (curve_y s) (t_values s)) = last (control_points s) ! 1"
proof -
  let ?n = "length (control_points s)"
  have ne: "control_points s \<noteq> []" and n: "?n = length (knots s) - (degree s + 1)"
    using assms(1) unfolding well_formed_def by auto
  have "2 * degree s + 2 \<le> length (knots s)" using assms(3) by (simp add: clamped_start_def)
  then have "knots s \<noteq> []" by auto
  then have hd_ks: "hd (knots s) = knots s ! 0" by (simp add: hd_conv_nth)
  have last_ks: "last (knots s) = knots s ! ?n" by (rule clamped_end_last [OF assms(4) n])
  have hd_cps: "hd (control_points s) = control_points s ! 0"
    and last_cps: "last (control_points s) = control_points s ! (?n - 1)"
    using ne by (simp_all add: hd_conv_nth last_conv_nth)
  show ?thesis
    using curve_at_clamped_start [OF assms(1-3)] curve_at_clamped_end [OF assms(1,2,4) refl] assms(5-7)
    by (simp add: hd_map last_map hd_ks last_ks hd_cps last_cps)
qed

end
