(* ===== verification/Plotting.thy ===== *)
theory Plotting
  imports Sampler Interpolate
begin

text \<open>
  The plotting half of \<^verbatim>\<open>src/main.rs\<close>: \<open>BSpline::bases_plot\<close> (lines 102-116) and
  \<open>BSpline::plot\<close> (lines 135-149), and the part of peroxide's \<open>Plot2D\<close> they use.
  \<open>Plot2D\<close> is outside the repository. It is modelled from the spec, which
  describes it as a sink for an ordered domain, one or more value sequences plotted
  against that domain, labels and an output path.
  \<^item> The builder state is the record \<open>plot2d\<close>; each builder method is a record update.
  \<^item> \<open>savefig\<close> writes the figure when the renderer's contract \<open>renders\<close> holds: a path
    is set, there is at least one image, and every image has the length of the domain.
    Otherwise it returns \<open>Err\<close>.
  \<^item> The file system is the list of files written so far, in order, threaded through
    the \<open>io\<close> combinators. A failure keeps the files already written, so the effects of
    a run that stops early stay visible.
  \<^item> A Rust panic and an \<open>Err\<close> propagated by \<open>?\<close> are the two cases of \<open>failure\<close>.
\<close>

datatype plot_style = Default | Nature | Science | IEEE

record 'a plot2d =
  domain :: "'a list"
  images :: "'a list list"
  xlabel :: "string option"
  ylabel :: "string option"
  style :: plot_style
  tight :: bool
  dpi :: "nat option"
  path :: "string option"

definition plot2d_new :: "'a plot2d" where
  "plot2d_new = \<lparr>domain = [], images = [], xlabel = None, ylabel = None, style = Default,
     tight = False, dpi = None, path = None\<rparr>"

definition set_domain :: "'a list \<Rightarrow> 'a plot2d \<Rightarrow> 'a plot2d" where
  "set_domain d p = p\<lparr>domain := d\<rparr>"

definition insert_image :: "'a list \<Rightarrow> 'a plot2d \<Rightarrow> 'a plot2d" where
  "insert_image v p = p\<lparr>images := images p @ [v]\<rparr>"

definition set_xlabel :: "string \<Rightarrow> 'a plot2d \<Rightarrow> 'a plot2d" where
  "set_xlabel l p = p\<lparr>xlabel := Some l\<rparr>"

definition set_ylabel :: "string \<Rightarrow> 'a plot2d \<Rightarrow> 'a plot2d" where
  "set_ylabel l p = p\<lparr>ylabel := Some l\<rparr>"

definition set_style :: "plot_style \<Rightarrow> 'a plot2d \<Rightarrow> 'a plot2d" where
  "set_style st p = p\<lparr>style := st\<rparr>"

definition tight_layout :: "'a plot2d \<Rightarrow> 'a plot2d" where
  "tight_layout p = p\<lparr>tight := True\<rparr>"

definition set_dpi :: "nat \<Rightarrow> 'a plot2d \<Rightarrow> 'a plot2d" where
  "set_dpi n p = p\<lparr>dpi := Some n\<rparr>"

definition set_path :: "string \<Rightarrow> 'a plot2d \<Rightarrow> 'a plot2d" where
  "set_path f p = p\<lparr>path := Some f\<rparr>"

definition renders :: "'a plot2d \<Rightarrow> bool" where
  "renders p \<longleftrightarrow> path p \<noteq> None \<and> images p \<noteq> [] \<and> list_all (\<lambda>v. length v = length (domain p)) (images p)"

datatype failure = Panic panic | Plot_error

type_synonym 'a files = "(string \<times> 'a plot2d) list"
type_synonym ('a, 'b) io = "'a files \<Rightarrow> (failure + 'b) \<times> 'a files"

definition io_return :: "'b \<Rightarrow> ('a, 'b) io" where
  "io_return x fs = (Inr x, fs)"

definition io_bind :: "('a, 'b) io \<Rightarrow> ('b \<Rightarrow> ('a, 'c) io) \<Rightarrow> ('a, 'c) io" where
  "io_bind m f fs = (case m fs of (Inl e, fs') \<Rightarrow> (Inl e, fs') | (Inr x, fs') \<Rightarrow> f x fs')"

definition io_lift :: "'b result \<Rightarrow> ('a, 'b) io" where
  "io_lift r fs = (case r of Inl e \<Rightarrow> (Inl (Panic e), fs) | Inr x \<Rightarrow> (Inr x, fs))"

definition savefig :: "'a plot2d \<Rightarrow> ('a, unit) io" where
  "savefig p fs =
     (case path p of
        None \<Rightarrow> (Inl Plot_error, fs)
      | Some f \<Rightarrow> if renders p then (Inr (), fs @ [(f, p)]) else (Inl Plot_error, fs))"

definition bases_plot :: "'a::linordered_field bspline \<Rightarrow> 'a list list \<Rightarrow> ('a, unit) io" where
  "bases_plot s bases =
     (let plt = set_domain (t_values s) plot2d_new;
          plt = fold insert_image bases plt
      in io_bind (savefig (set_path ''plot.png'' (set_dpi 600 (tight_layout (set_style Nature
                   (set_ylabel ''Basis'' (set_xlabel ''t'' plt)))))))
           (\<lambda>_. io_return ()))"

definition plot :: "'a::linordered_field bspline \<Rightarrow> ('a, unit) io" where
  "plot s =
     io_bind (io_lift (interpolate s)) (\<lambda>(x, y).
     io_bind (savefig (set_path ''interpolate_plot.png'' (set_dpi 600 (tight_layout (set_style Nature
              (set_ylabel ''$y$'' (set_xlabel ''$x$'' (insert_image y (set_domain x plot2d_new)))))))))
       (\<lambda>_. io_return ()))"

text \<open>The figures the two functions hand to the renderer.\<close>

definition bases_figure :: "'a list \<Rightarrow> 'a list list \<Rightarrow> 'a plot2d" where
  "bases_figure ts bases = \<lparr>domain = ts, images = bases, xlabel = Some ''t'', ylabel = Some ''Basis'',
     style = Nature, tight = True, dpi = Some 600, path = Some ''plot.png''\<rparr>"

definition curve_figure :: "'a list \<Rightarrow> 'a list \<Rightarrow> 'a plot2d" where
  "curve_figure xs ys = \<lparr>domain = xs, images = [ys], xlabel = Some ''$x$'', ylabel = Some ''$y$'',
     style = Nature, tight = True, dpi = Some 600, path = Some ''interpolate_plot.png''\<rparr>"

subsection \<open>The effect combinators\<close>

lemma io_bind_Inr [simp]: "m fs = (Inr x, fs') \<Longrightarrow> io_bind m f fs = f x fs'"
  by (simp add: io_bind_def)

lemma io_bind_Inl [simp]: "m fs = (Inl e, fs') \<Longrightarrow> io_bind m f fs = (Inl e, fs')"
  by (simp add: io_bind_def)

lemma io_return_simp [simp]: "io_return x fs = (Inr x, fs)"
  by (simp add: io_return_def)

lemma io_lift_simps [simp]:
  "io_lift (Inr x) fs = (Inr x, fs)" "io_lift (Inl e) fs = (Inl (Panic e), fs)"
  by (simp_all add: io_lift_def)

lemma savefig_ok:
  "renders p \<Longrightarrow> path p = Some f \<Longrightarrow> savefig p fs = (Inr (), fs @ [(f, p)])"
  by (simp add: savefig_def)

lemma savefig_err:
  "\<not> renders p \<Longrightarrow> savefig p fs = (Inl Plot_error, fs)"
  by (cases "path p") (simp_all add: savefig_def)

lemma fold_insert_image:
  "fold insert_image vs p = p\<lparr>images := images p @ vs\<rparr>"
  by (induction vs arbitrary: p) (simp_all add: insert_image_def)

lemma bases_plot_figure:
  "set_path ''plot.png'' (set_dpi 600 (tight_layout (set_style Nature (set_ylabel ''Basis''
     (set_xlabel ''t'' (fold insert_image bases (set_domain ts plot2d_new)))))))
   = bases_figure ts bases"
  by (simp add: fold_insert_image bases_figure_def set_path_def set_dpi_def tight_layout_def
      set_style_def set_ylabel_def set_xlabel_def set_domain_def plot2d_new_def)

lemma bases_plot_eq:
  "bases_plot s bases fs = io_bind (savefig (bases_figure (t_values s) bases)) (\<lambda>_. io_return ()) fs"
  by (simp add: bases_plot_def bases_plot_figure)

lemma curve_plot_figure:
  "set_path ''interpolate_plot.png'' (set_dpi 600 (tight_layout (set_style Nature
     (set_ylabel ''$y$'' (set_xlabel ''$x$'' (insert_image y (set_domain x plot2d_new)))))))
   = curve_figure x y"
  by (simp add: curve_figure_def set_path_def set_dpi_def tight_layout_def set_style_def
      set_ylabel_def set_xlabel_def insert_image_def set_domain_def plot2d_new_def)

lemma plot_eq:
  "plot s fs = io_bind (io_lift (interpolate s))
     (\<lambda>(x, y). io_bind (savefig (curve_figure x y)) (\<lambda>_. io_return ())) fs"
  by (simp add: plot_def curve_plot_figure)

lemma bases_figure_renders:
  "renders (bases_figure ts bases) \<longleftrightarrow> bases \<noteq> [] \<and> list_all (\<lambda>r. length r = length ts) bases"
  by (simp add: renders_def bases_figure_def)

lemma curve_figure_renders:
  "renders (curve_figure xs ys) \<longleftrightarrow> length ys = length xs"
  by (simp add: renders_def curve_figure_def)

lemma bases_plot_ok:
  assumes "bases \<noteq> []" and "list_all (\<lambda>r. length r = length (t_values s)) bases"
  shows "bases_plot s bases fs = (Inr (), fs @ [(''plot.png'', bases_figure (t_values s) bases)])"
proof -
  have "savefig (bases_figure (t_values s) bases) fs = (Inr (), fs @ [(''plot.png'', bases_figure (t_values s) bases)])"
    using assms by (intro savefig_ok) (simp_all add: bases_figure_renders, simp add: bases_figure_def)
  then show ?thesis by (simp add: bases_plot_eq)
qed

lemma bases_plot_Nil: "bases_plot s [] fs = (Inl Plot_error, fs)"
proof -
  have "savefig (bases_figure (t_values s) []) fs = (Inl Plot_error, fs)"
    by (intro savefig_err) (simp add: bases_figure_renders)
  then show ?thesis by (simp add: bases_plot_eq)
qed

lemma plot_ok:
  assumes "interpolate s = Inr (xs, ys)"
  shows "plot s fs = (Inr (), fs @ [(''interpolate_plot.png'', curve_figure xs ys)])"
proof -
  have "length ys = length xs" using interpolate_lengths [OF assms] by simp
  then have "savefig (curve_figure xs ys) fs = (Inr (), fs @ [(''interpolate_plot.png'', curve_figure xs ys)])"
    by (intro savefig_ok) (simp_all add: curve_figure_renders, simp add: curve_figure_def)
  then show ?thesis using assms by (simp add: plot_eq)
qed

lemma plot_panic: "interpolate s = Inl e \<Longrightarrow> plot s fs = (Inl (Panic e), fs)"
  by (simp add: plot_eq)

subsection \<open>The renderer's contract\<close>

text \<open>C18: the basis plot always satisfies the renderer's contract: whenever
  \<open>generate_bases\<close> returns at least one row, \<open>bases_plot\<close> writes \<open>plot.png\<close> with the
  samples as domain and the rows as images, and returns \<open>Ok\<close>.\<close>

theorem bases_plot_renders:
  assumes "generate_bases s = Inr bases" and "degree s + 1 < length (knots s)"
  shows "bases_plot s bases fs = (Inr (), fs @ [(''plot.png'', bases_figure (t_values s) bases)])"
proof (rule bases_plot_ok)
  show "bases \<noteq> []" and "list_all (\<lambda>r. length r = length (t_values s)) bases"
    using generate_bases_rows [OF assms(1)] assms(2) by auto
qed

theorem bases_plot_renders_witness:
  "bases_plot \<lparr>degree = 0, knots = [0, 1::real], t_values = [0], control_points = [[0, 0]]\<rparr> [[1]] []
   = (Inr (), [(''plot.png'', bases_figure [0] [[1]])])"
proof -
  have "generate_bases \<lparr>degree = 0, knots = [0, 1::real], t_values = [0], control_points = [[0, 0]]\<rparr>
      = Inr [[1]]"
    by (simp add: generate_bases_def cox_de_boor_def init_deg0_def deg0_value_def set_cell_def)
  from bases_plot_renders [OF this] show ?thesis by simp
qed

text \<open>C19: the curve plot always satisfies the renderer's contract: \<open>plot\<close> either panics
  inside \<open>interpolate\<close> without writing anything, or writes \<open>interpolate_plot.png\<close> with the
  x values as domain and the y values as its one image, and returns \<open>Ok\<close>.\<close>

theorem plot_renders:
  "plot s fs = (case interpolate s of
                  Inl e \<Rightarrow> (Inl (Panic e), fs)
                | Inr (xs, ys) \<Rightarrow> (Inr (), fs @ [(''interpolate_plot.png'', curve_figure xs ys)]))"
  by (cases "interpolate s") (auto simp: plot_ok plot_panic)

end
