(* ===== verification/Example.thy ===== *)
theory Example
  imports Plotting
begin

text \<open>
  The program entry \<open>main\<close> of \<^verbatim>\<open>src/main.rs\<close> (lines 4-23) with its example data: a
  clamped cubic knot vector \<open>[0, 0, 0, 0, 1, 2, 3, 3, 3, 3]\<close>, 100 samples and six
  two-dimensional control points. \<open>run\<close> is the body of \<open>main\<close> after the data bindings
  (lines 17-22), in the code's order:
  \<^item> build the spline with \<open>BSpline::new\<close>;
  \<^item> compute the bases;
  \<^item> write the basis plot (\<open>bases_plot(bases)?\<close>);
  \<^item> write the curve plot (\<open>plot()?\<close>);
  \<^item> return \<open>Ok(())\<close>.

  \<open>main\<close> is \<open>run\<close> on the example data. The lemmas establish that the example knot
  vector is sorted and clamped at both ends, the preconditions of the general theorems. They
  also give the complete run of a well-formed spline (\<open>run_figures\<close>) and of \<open>main\<close>
  (\<open>main_eq\<close>).
\<close>

definition example_knots :: "real list" where
  "example_knots = [0, 0, 0, 0, 1, 2, 3, 3, 3, 3]"

definition example_degree :: nat where
  "example_degree = 3"

definition example_num_points :: nat where
  "example_num_points = 100"

definition example_control_points :: "real list list" where
  "example_control_points = [[0, 2], [0.2, -1], [0.4, 1], [0.6, -1], [0.8, 1], [1, 2]]"

definition run :: "nat \<Rightarrow> 'a::linordered_field list \<Rightarrow> nat \<Rightarrow> 'a list list \<Rightarrow> ('a, unit) io" where
  "run deg ks np cps =
     io_bind (io_lift (new deg ks np cps)) (\<lambda>spline.
     io_bind (io_lift (generate_bases spline)) (\<lambda>bases.
     io_bind (bases_plot spline bases) (\<lambda>_.
     io_bind (plot spline) (\<lambda>_.
       io_return ()))))"

definition main :: "(real, unit) io" where
  "main = run example_degree example_knots example_num_points example_control_points"

definition example_spline :: "real bspline" where
  "example_spline = \<lparr>degree = 3, knots = example_knots, t_values = linspace_values 0 3 100,
     control_points = example_control_points\<rparr>"

lemma new_example:
  "new example_degree example_knots example_num_points example_control_points = Inr example_spline"
  by (simp add: new_Inr example_spline_def example_knots_def example_degree_def
      example_num_points_def example_control_points_def)

lemma example_sorted: "sorted example_knots"
  by (simp add: example_knots_def)

lemma example_clamped_start: "clamped_start example_knots 3"
  by (simp add: clamped_start_def example_knots_def atMost_upto upt_rec)

lemma example_clamped_end: "clamped_end example_knots 3"
  by (simp add: clamped_end_def example_knots_def atLeastLessThan_upt upt_rec)

lemma example_well_formed: "well_formed example_spline"
  by (simp add: well_formed_def example_spline_def example_knots_def example_control_points_def)

lemma example_t_values:
  "length (t_values example_spline) = 100 \<and> hd (t_values example_spline) = 0
   \<and> last (t_values example_spline) = 3 \<and> t_values example_spline \<noteq> []
   \<and> (\<forall>t \<in> set (t_values example_spline). 0 \<le> t \<and> t \<le> 3)"
proof -
  have "\<forall>t \<in> set (linspace_values (0::real) 3 100). 0 \<le> t \<and> t \<le> 3"
    using linspace_values_bounds [of "0::real" 3] by simp
  then show ?thesis by (simp add: example_spline_def hd_linspace_values last_linspace_values)
qed

subsection \<open>Runs of the program body\<close>

lemma run_new:
  "new deg ks np cps = Inr s \<Longrightarrow>
   run deg ks np cps fs = io_bind (io_lift (generate_bases s)) (\<lambda>bases.
     io_bind (bases_plot s bases) (\<lambda>_. io_bind (plot s) (\<lambda>_. io_return ()))) fs"
  by (simp add: run_def)

lemma generate_bases_wf:
  assumes "well_formed s"
  shows "generate_bases s = Inr (map (\<lambda>i. map (\<lambda>x. basis_of s x (degree s) i) (t_values s))
                                     [0..<length (control_points s)])"
proof -
  have "length (control_points s) + degree s + 1 = length (knots s)"
    using assms by (simp add: well_formed_def)
  then have "length (knots s) - (degree s + 1) = length (control_points s)" and "degree s + 1 \<le> length (knots s)"
    by simp_all
  then show ?thesis using generate_bases_basis [of s] by simp
qed

lemma generate_bases_wf_rows:
  "list_all (\<lambda>r. length r = length (t_values s))
     (map (\<lambda>i. map (\<lambda>x. basis_of s x (degree s) i) (t_values s)) [0..<n])"
  by (simp add: list_all_iff)

text \<open>A well-formed spline runs to completion: the basis plot is written, then the curve
  plot, and the run returns \<open>Ok\<close>.\<close>

lemma run_figures:
  assumes "new deg ks np cps = Inr s" and "well_formed s"
  shows "run deg ks np cps fs =
    (Inr (), fs @ [(''plot.png'', bases_figure (t_values s)
                      (map (\<lambda>i. map (\<lambda>x. basis_of s x (degree s) i) (t_values s)) [0..<length (control_points s)])),
                   (''interpolate_plot.png'', curve_figure (map (curve_x s) (t_values s)) (map (curve_y s) (t_values s)))])"
proof -
  have ne: "control_points s \<noteq> []" using assms(2) by (simp add: well_formed_def)
  show ?thesis
    using ne by (simp add: run_new [OF assms(1)] generate_bases_wf [OF assms(2)] bases_plot_ok
        generate_bases_wf_rows plot_ok [OF interpolate_sums [OF assms(2)]])
qed

lemma main_eq:
  "main [] =
    (Inr (), [(''plot.png'', bases_figure (t_values example_spline)
                 (map (\<lambda>i. map (\<lambda>x. basis example_knots 3 x 3 i) (t_values example_spline)) [0..<6])),
              (''interpolate_plot.png'', curve_figure (map (curve_x example_spline) (t_values example_spline))
                 (map (curve_y example_spline) (t_values example_spline)))])"
proof -
  have s: "knots example_spline = example_knots" "degree example_spline = 3"
    "length (control_points example_spline) = 6"
    by (simp_all add: example_spline_def example_control_points_def)
  show ?thesis
    using run_figures [OF new_example example_well_formed, of "[]"] by (simp add: main_def s)
qed

end
