(* ===== verification/Spec2Isabelle.thy ===== *)
theory Spec2Isabelle
  imports Example
begin

text \<open>
  Verification of Axect/BSpline, \<^verbatim>\<open>src/src/main.rs\<close>: B-spline basis evaluation
  by the Cox-de Boor recursion, a sampler producing every basis function over a grid of
  parameter values, and curve interpolation blending two-dimensional control points with
  those basis values. \<open>main\<close> builds one example spline and writes two plots: the basis
  functions (\<open>plot.png\<close>), then the interpolated curve (\<open>interpolate_plot.png\<close>).

  \<^bold>\<open>Modelling conventions\<close> (theory \<open>BSpline_Prelude\<close>).
  \<^item> \<open>f64\<close> is an arbitrary ordered field (\<open>'a::linordered_field\<close>, instantiated to
    \<open>real\<close> for the example). Rounding is not modelled: the theorems hold for exact
    arithmetic.
  \<^item> Every Rust panic is a value of the result type \<open>panic + 'a\<close>: out-of-range indexing
    (\<open>idx\<close>), \<open>usize\<close> subtraction below zero (\<open>usub\<close>) and \<open>assert_eq!\<close>
    (\<open>AssertionFailed\<close>). \<open>bind_r\<close> sequences fallible steps in the order of the code.
  \<^item> A \<open>for\<close> loop over a range is \<open>foldM\<close> over the list of the range; \<open>map\<close>/\<open>fmap\<close>
    with a fallible body is \<open>mapM\<close>. A loop pushing one value per iteration is proved
    equal to a \<open>mapM\<close> (\<open>foldM_push\<close>, \<open>foldM_push_pairs\<close>).
  \<^item> Every loop of the program runs over a finite range, so all definitions are total and
    structural: no fuel is needed.
  \<^item> Additions of \<open>usize\<close> indices (\<open>i + j + k + 1\<close>) are taken without overflow. They
    stay below \<open>knots.len()\<close> in every call that reads a knot.
  \<^item> The file-system effects of the plots (theory \<open>Plotting\<close>) are a log of the files
    written, in order. It is threaded through \<open>io_bind\<close>; a panic or an \<open>Err\<close> keeps the
    files already written.

  \<^bold>\<open>Components.\<close>
  \<^item> \<open>BSpline_Struct\<close>: the struct \<open>BSpline\<close> (lines 25-30) as the record \<open>bspline\<close>, and
    \<open>BSpline::new\<close> (33-37) as \<open>new\<close>, with its four panics in evaluation order. peroxide's
    \<open>linspace\<close> is outside the repository and is modelled after its implementation: it
    writes \<open>v[0] = start\<close> and \<open>v[n - 1] = end\<close> of a vector of length \<open>n\<close>. So it panics
    for \<open>n = 0\<close>, gives \<open>[end]\<close> for \<open>n = 1\<close>, and its last sample is exactly the last
    knot, which is where the closure rule applies. \<open>linspace_values\<close> is the vector it
    returns. \<open>new_Inr\<close> characterises success; C22 gives the complete panic behaviour and
    C23 the sample grid.
  \<^item> \<open>Basis\<close>: the reference against which the implementation is proved. It holds
    \<open>basis\<close>, the recursive Cox-de Boor formulation commented out in the source
    (lines 39-59), with the degree-0 test \<open>deg0_active\<close> (including its closure rule) and
    the zero-guarded coefficients \<open>coef_left\<close>/\<open>coef_right\<close> (75-85). \<open>basis_from\<close> is
    the same blend from an arbitrary degree-0 row; it is linear in the row. Its lemmas:
    \<^item> local support and non-negativity;
    \<^item> the telescoping sum over one knot span;
    \<^item> partition of unity on \<open>[knots[degree], knots[n])\<close>;
    \<^item> the values at the ends of knot vectors clamped at the start or end, at every
      degree level (\<open>basis_clamped_start\<close>, \<open>basis_clamped_end\<close>);
    \<^item> the sum 2 at the right end of a knot vector whose end is not clamped
      (\<open>basis_sum_unclamped_end\<close>).
  \<^item> \<open>Cox_de_Boor\<close>: the implementation \<open>BSpline::cox_de_boor\<close> (60-92). The
    \<open>(p+1) x (p+1)\<close> table is a list of lists written with \<open>set_cell\<close>. The degree-0
    loop is \<open>init_deg0\<close>, with the short-circuit test \<open>deg0_value\<close>. The level loop is
    \<open>fill_level\<close>, with inner body \<open>blend_cell\<close>. Every knot read is bounds-checked in the
    code's order. \<open>cox_de_boor_basis\<close> shows that the table equals the recursion (C1).
    The basis properties transfer to the implementation:
    \<^item> partition of unity (C2) and bounds (C11, C12);
    \<^item> support (C13) and the right edge of a clamped knot vector (C14);
    \<^item> the right edge at lower degrees (C15), which settles the spec's open question
      about the closure rule;
    \<^item> panics outside the index domain (C27, C30);
    \<^item> the double count at the right end of any knot vector whose end is not clamped
      (C29).
  \<^item> \<open>Sampler\<close>: \<open>BSpline::generate_bases\<close> (94-100) as \<open>generate_bases\<close>. It equals the
    rows of the recursive basis (C4). Its result has one row per basis function and one
    value per sample (C17), and each row has local support (C16).
  \<^item> \<open>Interpolate\<close>: \<open>BSpline::interpolate\<close> (118-133) as \<open>interpolate\<close>, with the outer
    loop over samples, the inner sum \<open>interp_point\<close> and its body \<open>interp_step\<close>. Under the
    invariant \<open>well_formed\<close>, it returns the weighted sums \<open>curve_x\<close>/\<open>curve_y\<close> (C3). For
    clamped knots the curve interpolates the end points (C5) and stays in the bounding
    box of the control points (C7), and translating the control points translates the
    curve (C8). For any sorted knots, the points sampled inside the domain stay in the box
    (C9). A control point that is too short panics (C28). The curve is the combination of
    the rows \<open>generate_bases\<close> returns (C10).
  \<^item> \<open>Plotting\<close>: \<open>BSpline::bases_plot\<close> (102-116) and \<open>BSpline::plot\<close> (135-149).
    peroxide's \<open>Plot2D\<close> builder is the record \<open>plot2d\<close>, modelled from the spec: the
    renderer accepts a domain, one or more value sequences plotted against it, and an
    output path (\<open>renders\<close>). This contract is the spec's description of the sink, not
    peroxide's code. \<open>savefig\<close> returns \<open>Err\<close> when the contract fails. Both functions
    always meet the contract when they have data (C18, C19).
  \<^item> \<open>Example\<close>: \<open>main\<close> (lines 4-23) is \<open>run\<close> (17-22) on the example data. For any
    valid input, \<open>run\<close> writes the two figures in order and returns \<open>Ok\<close> (C6). A
    short control point leaves \<open>plot.png\<close> behind and then panics (C24). With no control
    points it returns \<open>Err\<close> (C25). With no samples it panics inside \<open>linspace\<close> before
    writing anything (C26). The concrete scenarios of the spec are C20 (curve) and C21
    (bases).

  \<^bold>\<open>Not modelled.\<close>
  \<^item> The rendering of a figure into PNG pixels: matplotlib is driven by peroxide
    through Python. The model stops at the figure handed to \<open>savefig\<close> and the path it
    is written to.
  \<^item> Floating-point rounding. In exact arithmetic the zero guards of \<open>coef_left\<close> and
    \<open>coef_right\<close> agree with the unguarded quotient, since HOL defines \<open>x / 0 = 0\<close>; in
    \<open>f64\<close> they are what keeps repeated knots from producing NaN.
  \<^item> Out-of-range writes to the table: \<open>set_cell\<close> leaves the table unchanged where Rust
    would panic. No call reaches such a write, since \<open>j \<le> p - k\<close> and \<open>k \<le> p\<close> index
    a \<open>(p + 1) x (p + 1)\<close> table (\<open>fold_set_column\<close>).
  \<^item> \<open>usize\<close> overflow of index additions.
\<close>

text \<open>C4: the bases computed by \<open>generate_bases\<close> for a spline built by \<open>new\<close> are the
  rows, one per control point, of the recursive basis of full degree sampled at the
  \<open>linspace\<close> grid from the first to the last knot.\<close>

theorem generate_bases_of_new:
  assumes "new deg ks np cps = Inr s"
  shows "generate_bases s =
    Inr (map (\<lambda>i. map (\<lambda>x. basis ks deg x deg i) (linspace_values (hd ks) (last ks) np)) [0..<length cps])"
proof -
  from assms have "deg + 1 \<le> length ks" and "length cps + deg + 1 = length ks"
    and s: "s = \<lparr>degree = deg, knots = ks, t_values = linspace_values (hd ks) (last ks) np, control_points = cps\<rparr>"
    by (simp_all add: new_Inr)
  moreover have "length ks - (deg + 1) = length cps" using \<open>length cps + deg + 1 = length ks\<close> by simp
  ultimately show ?thesis using generate_bases_basis [of s] by simp
qed

theorem generate_bases_of_new_witness:
  "generate_bases example_spline =
     Inr (map (\<lambda>i. map (\<lambda>x. basis example_knots example_degree x example_degree i)
                  (linspace_values (hd example_knots) (last example_knots) example_num_points))
              [0..<length example_control_points])"
  by (rule generate_bases_of_new [OF new_example])

text \<open>C10: the two consumers of the basis agree: on a well-formed spline each point of the
  interpolated curve is the combination of the rows returned by \<open>generate_bases\<close> at that
  sample, weighted by the control points' coordinates.\<close>

theorem interpolate_matches_bases:
  assumes "well_formed s" and "generate_bases s = Inr bases" and "interpolate s = Inr (xs, ys)"
    and "j < length (t_values s)"
  shows "xs ! j = (\<Sum>i<length bases. bases ! i ! j * control_points s ! i ! 0)
       \<and> ys ! j = (\<Sum>i<length bases. bases ! i ! j * control_points s ! i ! 1)"
proof -
  have b: "bases = map (\<lambda>i. map (\<lambda>x. basis_of s x (degree s) i) (t_values s)) [0..<length (control_points s)]"
    using assms(2) generate_bases_wf [OF assms(1)] by simp
  have "xs = map (curve_x s) (t_values s)" and "ys = map (curve_y s) (t_values s)"
    using assms(3) interpolate_sums [OF assms(1)] by simp_all
  with b assms(4) show ?thesis by simp
qed

theorem interpolate_matches_bases_witness:
  "generate_bases \<lparr>degree = 0, knots = [0, 1::real], t_values = [0], control_points = [[0, 2]]\<rparr> = Inr [[1]]
   \<and> interpolate \<lparr>degree = 0, knots = [0, 1::real], t_values = [0], control_points = [[0, 2]]\<rparr> = Inr ([0], [2])
   \<and> [0::real] ! 0 = (\<Sum>i<1. [[1::real]] ! i ! 0 * [[0, 2::real]] ! i ! 0)
   \<and> [2::real] ! 0 = (\<Sum>i<1. [[1::real]] ! i ! 0 * [[0, 2::real]] ! i ! 1)"
proof -
  let ?s = "\<lparr>degree = 0, knots = [0, 1::real], t_values = [0], control_points = [[0, 2]]\<rparr>"
  have wf: "well_formed ?s" by (simp add: well_formed_def)
  have gb: "generate_bases ?s = Inr [[1]]"
    using generate_bases_wf [OF wf] by (simp add: deg0_active_def)
  have ip: "interpolate ?s = Inr ([0], [2])"
    using interpolate_sums [OF wf] by (simp add: deg0_active_def)
  from interpolate_matches_bases [OF wf gb ip, of 0] gb ip show ?thesis by simp
qed

text \<open>C3: for a spline built by \<open>new\<close> with non-empty two-dimensional control points,
  \<open>interpolate\<close> returns, at each sample, the two coordinates of the basis-weighted sum of
  the control points.\<close>

theorem interpolate_of_new:
  assumes "new deg ks np cps = Inr s" and "cps \<noteq> []" and "\<forall>cp \<in> set cps. 2 \<le> length cp"
  shows "interpolate s =
    Inr (map (\<lambda>t. \<Sum>i<length cps. basis ks deg t deg i * cps ! i ! 0) (linspace_values (hd ks) (last ks) np),
         map (\<lambda>t. \<Sum>i<length cps. basis ks deg t deg i * cps ! i ! 1) (linspace_values (hd ks) (last ks) np))"
proof -
  from assms(1) have s: "s = \<lparr>degree = deg, knots = ks, t_values = linspace_values (hd ks) (last ks) np,
      control_points = cps\<rparr>"
    by (simp add: new_Inr)
  from interpolate_sums [OF new_well_formed [OF assms]] show ?thesis by (simp add: s)
qed

theorem interpolate_of_new_witness:
  "interpolate example_spline =
    Inr (map (\<lambda>t. \<Sum>i<length example_control_points.
                basis example_knots example_degree t example_degree i * example_control_points ! i ! 0)
             (linspace_values (hd example_knots) (last example_knots) example_num_points),
         map (\<lambda>t. \<Sum>i<length example_control_points.
                basis example_knots example_degree t example_degree i * example_control_points ! i ! 1)
             (linspace_values (hd example_knots) (last example_knots) example_num_points))"
  by (rule interpolate_of_new [OF new_example]) (simp_all add: example_control_points_def)

text \<open>C5: for a sorted knot vector clamped at both ends, the interpolated curve starts at the
  first control point and ends at the last one.\<close>

theorem interpolate_clamped_endpoints:
  assumes "sorted ks" and "clamped_start ks deg" and "clamped_end ks deg"
    and "new deg ks np cps = Inr s" and "1 < np" and "\<forall>cp \<in> set cps. 2 \<le> length cp"
  shows "\<exists>xs ys. interpolate s = Inr (xs, ys) \<and> hd xs = hd cps ! 0 \<and> hd ys = hd cps ! 1
           \<and> last xs = last cps ! 0 \<and> last ys = last cps ! 1"
proof -
  from assms(4) have len: "length cps + deg + 1 = length ks"
    and s: "s = \<lparr>degree = deg, knots = ks, t_values = linspace_values (hd ks) (last ks) np, control_points = cps\<rparr>"
    by (simp_all add: new_Inr)
  have "2 * deg + 2 \<le> length ks" using assms(2) by (simp add: clamped_start_def)
  then have "cps \<noteq> []" using len by auto
  then have wf: "well_formed s" by (rule new_well_formed [OF assms(4) _ assms(6)])
  have ts: "t_values s \<noteq> []" "hd (t_values s) = hd (knots s)" "last (t_values s) = last (knots s)"
    using assms(5) s by (simp_all add: hd_linspace_values last_linspace_values)
  have "sorted (knots s)" "clamped_start (knots s) (degree s)" "clamped_end (knots s) (degree s)"
    using assms(1-3) s by simp_all
  from curve_ends [OF wf this ts] have "hd (map (curve_x s) (t_values s)) = hd cps ! 0
      \<and> hd (map (curve_y s) (t_values s)) = hd cps ! 1
      \<and> last (map (curve_x s) (t_values s)) = last cps ! 0
      \<and> last (map (curve_y s) (t_values s)) = last cps ! 1"
    by (simp add: s)
  then show ?thesis using interpolate_sums [OF wf] by blast
qed

theorem interpolate_clamped_endpoints_witness:
  "\<exists>xs ys. interpolate example_spline = Inr (xs, ys) \<and> hd xs = 0 \<and> hd ys = 2 \<and> last xs = 1 \<and> last ys = 2"
  using interpolate_clamped_endpoints [OF example_sorted example_clamped_start example_clamped_end
      new_example [unfolded example_degree_def]]
  by (simp add: example_num_points_def example_control_points_def)

text \<open>C7: for a sorted knot vector clamped at both ends, every interpolated point lies within
  the coordinate ranges of the control points.\<close>

theorem interpolate_convex_hull:
  assumes "sorted ks" and "clamped_start ks deg" and "clamped_end ks deg"
    and "new deg ks np cps = Inr s"
    and "\<forall>cp \<in> set cps. 2 \<le> length cp \<and> xlo \<le> cp ! 0 \<and> cp ! 0 \<le> xhi \<and> ylo \<le> cp ! 1 \<and> cp ! 1 \<le> yhi"
  shows "\<exists>xs ys. interpolate s = Inr (xs, ys)
           \<and> list_all (\<lambda>x. xlo \<le> x \<and> x \<le> xhi) xs \<and> list_all (\<lambda>y. ylo \<le> y \<and> y \<le> yhi) ys"
proof -
  from assms(4) have len: "length cps + deg + 1 = length ks" and ne_ks: "ks \<noteq> []"
    and s: "s = \<lparr>degree = deg, knots = ks, t_values = linspace_values (hd ks) (last ks) np, control_points = cps\<rparr>"
    by (simp_all add: new_Inr)
  have "2 * deg + 2 \<le> length ks" using assms(2) by (simp add: clamped_start_def)
  then have "cps \<noteq> []" using len by auto
  then have wf: "well_formed s" using assms(5) by (intro new_well_formed [OF assms(4)]) auto
  have cl: "sorted (knots s)" "clamped_start (knots s) (degree s)" "clamped_end (knots s) (degree s)"
    using assms(1-3) s by simp_all
  have "hd ks \<le> last ks"
    using ne_ks assms(1) by (simp add: hd_conv_nth last_conv_nth sorted_nth_mono)
  then have ts: "hd (knots s) \<le> t \<and> t \<le> last (knots s)" if "t \<in> set (t_values s)" for t
    using that linspace_values_bounds s by simp
  have b: "\<forall>cp \<in> set (control_points s). xlo \<le> cp ! 0 \<and> cp ! 0 \<le> xhi"
    "\<forall>cp \<in> set (control_points s). ylo \<le> cp ! 1 \<and> cp ! 1 \<le> yhi"
    using assms(5) s by simp_all
  have "list_all (\<lambda>x. xlo \<le> x \<and> x \<le> xhi) (map (curve_x s) (t_values s))"
    unfolding list_all_iff using curve_in_hull [OF wf cl _ _ b(1)] ts by auto
  moreover have "list_all (\<lambda>y. ylo \<le> y \<and> y \<le> yhi) (map (curve_y s) (t_values s))"
    unfolding list_all_iff using curve_in_hull [OF wf cl _ _ b(2)] ts by auto
  ultimately show ?thesis using interpolate_sums [OF wf] by blast
qed

theorem interpolate_convex_hull_witness:
  "\<exists>xs ys. interpolate example_spline = Inr (xs, ys)
     \<and> list_all (\<lambda>x. 0 \<le> x \<and> x \<le> 1) xs \<and> list_all (\<lambda>y. -1 \<le> y \<and> y \<le> 2) ys"
  using interpolate_convex_hull [OF example_sorted example_clamped_start example_clamped_end
      new_example [unfolded example_degree_def], of 0 1 "-1" 2]
  by (simp add: example_control_points_def)

text \<open>C28: if a control point of a spline built by \<open>new\<close> has fewer than two coordinates
  and there is a sample, \<open>interpolate\<close> panics with an index out of bounds.\<close>

theorem interpolate_short_point_of_new:
  assumes "new deg ks np cps = Inr s" and "0 < np" and "i < length cps" and "length (cps ! i) < 2"
  shows "interpolate s = Inl IndexOutOfBounds"
proof (rule interpolate_short_point)
  from assms(1) have "length cps + deg + 1 = length ks"
    and s: "s = \<lparr>degree = deg, knots = ks, t_values = linspace_values (hd ks) (last ks) np, control_points = cps\<rparr>"
    by (simp_all add: new_Inr)
  then show "length (control_points s) + degree s + 1 = length (knots s)" by simp
  show "t_values s \<noteq> []" using s assms(2) by simp
  show "i < length (control_points s)" and "length (control_points s ! i) < 2"
    using s assms(3,4) by simp_all
qed

theorem interpolate_short_point_of_new_witness:
  "interpolate \<lparr>degree = 3, knots = example_knots, t_values = linspace_values 0 3 100,
     control_points = [[0, 2], [0.2], [0.4, 1], [0.6, -1], [0.8, 1], [1, 2]]\<rparr> = Inl IndexOutOfBounds"
  by (rule interpolate_short_point_of_new [where i = 1 and deg = 3 and ks = example_knots
        and np = 100 and cps = "[[0, 2], [0.2], [0.4, 1], [0.6, -1], [0.8, 1], [1, 2]]"])
    (simp_all add: new_Inr example_knots_def)

text \<open>C6: for a spline built by \<open>new\<close> with non-empty two-dimensional control points, the
  program body runs to \<open>Ok\<close> and writes exactly two files, in this order: \<open>plot.png\<close> with the
  sampled basis rows, then \<open>interpolate_plot.png\<close> with the curve.\<close>

theorem run_writes_figures:
  assumes "new deg ks np cps = Inr s" and "cps \<noteq> []" and "\<forall>cp \<in> set cps. 2 \<le> length cp"
  shows "run deg ks np cps fs =
    (Inr (), fs @ [(''plot.png'', bases_figure (t_values s)
                      (map (\<lambda>i. map (\<lambda>x. basis ks deg x deg i) (t_values s)) [0..<length cps])),
                   (''interpolate_plot.png'', curve_figure
                      (map (\<lambda>t. \<Sum>i<length cps. basis ks deg t deg i * cps ! i ! 0) (t_values s))
                      (map (\<lambda>t. \<Sum>i<length cps. basis ks deg t deg i * cps ! i ! 1) (t_values s)))])"
proof -
  have s: "knots s = ks" "degree s = deg" "control_points s = cps" using assms(1) by (simp_all add: new_Inr)
  from run_figures [OF assms(1) new_well_formed [OF assms]] show ?thesis by (simp only: s)
qed

theorem run_writes_figures_witness:
  "run (0::nat) [0, 1::real] 1 [[0, 2]] [] =
     (Inr (), [(''plot.png'', bases_figure [1] [[1]]), (''interpolate_plot.png'', curve_figure [0] [2])])"
proof -
  have "new 0 [0, 1::real] 1 [[0, 2]] = Inr \<lparr>degree = 0, knots = [0, 1], t_values = [1], control_points = [[0, 2]]\<rparr>"
    by (simp add: new_Inr linspace_values_def)
  from run_writes_figures [OF this] show ?thesis by (simp add: deg0_active_def)
qed

text \<open>C24: if a control point has fewer than two coordinates, the program body writes the
  basis plot \<open>plot.png\<close> and then panics with an index out of bounds in \<open>interpolate\<close>: the
  first file is left behind, the second is never written.\<close>

theorem run_short_point:
  assumes "new deg ks np cps = Inr s" and "0 < np" and "i < length cps" and "length (cps ! i) < 2"
  shows "run deg ks np cps fs =
    (Inl (Panic IndexOutOfBounds),
     fs @ [(''plot.png'', bases_figure (t_values s) (map (\<lambda>i. map (\<lambda>x. basis ks deg x deg i) (t_values s)) [0..<length cps]))])"
proof -
  from assms(1) have len: "length cps + deg + 1 = length ks"
    and s: "s = \<lparr>degree = deg, knots = ks, t_values = linspace_values (hd ks) (last ks) np, control_points = cps\<rparr>"
    by (simp_all add: new_Inr)
  have "length ks - (deg + 1) = length cps" and "deg + 1 \<le> length ks" using len by simp_all
  then have gb: "generate_bases s = Inr (map (\<lambda>i. map (\<lambda>x. basis ks deg x deg i) (t_values s)) [0..<length cps])"
    using generate_bases_basis [of s] by (simp add: s)
  have "interpolate s = Inl IndexOutOfBounds"
    by (rule interpolate_short_point [where i = i]) (use len assms(2-4) in \<open>simp_all add: s\<close>)
  moreover have "cps \<noteq> []" using assms(3) by auto
  ultimately show ?thesis
    by (simp add: run_new [OF assms(1)] gb bases_plot_ok list_all_iff plot_panic)
qed

theorem run_short_point_witness:
  "run (0::nat) [0, 1::real] 1 [[0]] [] =
     (Inl (Panic IndexOutOfBounds), [(''plot.png'', bases_figure [1] [[1]])])"
proof -
  have "new 0 [0, 1::real] 1 [[0]] = Inr \<lparr>degree = 0, knots = [0, 1], t_values = [1], control_points = [[0]]\<rparr>"
    by (simp add: new_Inr linspace_values_def)
  from run_short_point [OF this, of 0] show ?thesis by (simp add: deg0_active_def)
qed

text \<open>C25: with no control points (\<open>knots.len() = degree + 1\<close>) and at least one sample, construction and the
  sampler succeed, but the basis plot has no image: the renderer rejects it, and the
  program returns \<open>Err\<close> without writing a file.\<close>

theorem run_no_control_points:
  assumes "ks \<noteq> []" and "0 < np" and "length ks = deg + 1"
  shows "run deg ks np [] fs = (Inl Plot_error, fs)"
proof -
  have n: "new deg ks np [] = Inr \<lparr>degree = deg, knots = ks, t_values = linspace_values (hd ks) (last ks) np,
      control_points = []\<rparr>"
    using assms by (simp add: new_Inr)
  have "generate_bases \<lparr>degree = deg, knots = ks, t_values = linspace_values (hd ks) (last ks) np,
      control_points = []\<rparr> = Inr []"
    using assms(3) by (simp add: generate_bases_def)
  then show ?thesis by (simp add: run_new [OF n] bases_plot_Nil)
qed

theorem run_no_control_points_witness:
  "run (0::nat) [0::real] 5 [] [] = (Inl Plot_error, [])"
  by (rule run_no_control_points) simp_all

text \<open>C21: \<open>main\<close> writes \<open>plot.png\<close> with 100 samples and six basis rows of 100
  values each, and at every sample the six basis values sum to 1.\<close>

theorem main_bases:
  "\<exists>ts bases f. main [] = (Inr (), [(''plot.png'', bases_figure ts bases), (''interpolate_plot.png'', f)])
     \<and> length ts = 100 \<and> map length bases = replicate 6 100
     \<and> map (\<lambda>j. \<Sum>i<6. bases ! i ! j) [0..<100] = replicate 100 1"
proof -
  let ?ts = "t_values example_spline"
  let ?B = "map (\<lambda>i. map (\<lambda>x. basis example_knots 3 x 3 i) ?ts) [0..<6]"
  have ts: "length ?ts = 100" "\<forall>t \<in> set ?ts. 0 \<le> t \<and> t \<le> 3"
    using example_t_values by simp_all
  have col: "(\<Sum>i<6. ?B ! i ! j) = 1" if "j < 100" for j
  proof -
    have t: "0 \<le> ?ts ! j \<and> ?ts ! j \<le> 3" using ts that by simp
    have "(\<Sum>i<6. ?B ! i ! j) = (\<Sum>i<6. basis example_knots 3 (?ts ! j) 3 i)"
      using ts(1) that by (intro sum.cong) simp_all
    also have "\<dots> = 1"
      using t by (intro basis_sum_closed [OF example_sorted example_clamped_end])
        (simp_all add: example_knots_def)
    finally show ?thesis .
  qed
  have "map (\<lambda>j. \<Sum>i<6. ?B ! i ! j) [0..<100] = map (\<lambda>_. 1) [0..<100]"
    using col by simp
  then have "map (\<lambda>j. \<Sum>i<6. ?B ! i ! j) [0..<100] = replicate 100 1"
    by (simp add: map_replicate_const)
  moreover have "map length ?B = replicate 6 100"
    using ts(1) by (simp add: comp_def map_replicate_const)
  ultimately show ?thesis using main_eq ts(1) by blast
qed

text \<open>C20: \<open>main\<close> writes the two plots and returns \<open>Ok\<close>. The curve plot has 100
  points, starts at \<open>(0, 2)\<close>, ends at \<open>(1, 2)\<close> and stays within
  \<open>[0, 1] x [-1, 2]\<close>, the box of the control points.\<close>

theorem main_curve:
  "\<exists>f xs ys. main [] = (Inr (), [(''plot.png'', f), (''interpolate_plot.png'', curve_figure xs ys)])
     \<and> length xs = 100 \<and> length ys = 100
     \<and> hd xs = 0 \<and> hd ys = 2 \<and> last xs = 1 \<and> last ys = 2
     \<and> list_all (\<lambda>x. 0 \<le> x \<and> x \<le> 1) xs \<and> list_all (\<lambda>y. -1 \<le> y \<and> y \<le> 2) ys"
proof -
  let ?s = example_spline and ?ts = "t_values example_spline"
  have ts: "length ?ts = 100" "hd ?ts = 0" "last ?ts = 3" "?ts \<noteq> []"
      "\<forall>t \<in> set ?ts. 0 \<le> t \<and> t \<le> 3"
    using example_t_values by simp_all
  have s: "knots ?s = example_knots" "degree ?s = 3" "control_points ?s = example_control_points"
    by (simp_all add: example_spline_def)
  note cl = example_well_formed example_sorted [folded s(1)]
    example_clamped_start [folded s(1,2)] example_clamped_end [folded s(1,2)]
  have kn: "hd (knots ?s) = 0" "last (knots ?s) = 3"
    by (simp_all add: s example_knots_def)
  have ends: "hd (map (curve_x ?s) ?ts) = 0 \<and> hd (map (curve_y ?s) ?ts) = 2
      \<and> last (map (curve_x ?s) ?ts) = 1 \<and> last (map (curve_y ?s) ?ts) = 2"
    using curve_ends [OF cl ts(4)] ts(2,3) kn by (simp add: s example_control_points_def)
  have hull: "lo \<le> curve_x ?s t \<and> curve_x ?s t \<le> hi" "lo' \<le> curve_y ?s t \<and> curve_y ?s t \<le> hi'"
    if "t \<in> set ?ts" and "\<forall>cp \<in> set example_control_points. lo \<le> cp ! 0 \<and> cp ! 0 \<le> hi"
      and "\<forall>cp \<in> set example_control_points. lo' \<le> cp ! 1 \<and> cp ! 1 \<le> hi'" for t lo hi lo' hi'
    using ts(5) that kn
    by (intro curve_in_hull [OF cl]; simp add: s)+
  have cps: "\<forall>cp \<in> set example_control_points. 0 \<le> cp ! 0 \<and> cp ! 0 \<le> 1"
    "\<forall>cp \<in> set example_control_points. -1 \<le> cp ! 1 \<and> cp ! 1 \<le> 2"
    by (simp_all add: example_control_points_def)
  have "list_all (\<lambda>x. 0 \<le> x \<and> x \<le> 1) (map (curve_x ?s) ?ts)"
    unfolding list_all_iff using hull(1) [OF _ cps] by auto
  moreover have "list_all (\<lambda>y. -1 \<le> y \<and> y \<le> 2) (map (curve_y ?s) ?ts)"
    unfolding list_all_iff using hull(2) [OF _ cps] by auto
  moreover have "length (map (curve_x ?s) ?ts) = 100" "length (map (curve_y ?s) ?ts) = 100"
    using ts(1) by simp_all
  ultimately show ?thesis using main_eq ends by blast
qed

text \<open>C8: translation invariance: for a sorted knot vector clamped at both ends, moving every
  control point by \<open>(dx, dy)\<close> moves every interpolated point by \<open>(dx, dy)\<close>.\<close>

theorem interpolate_translate:
  assumes "sorted ks" and "clamped_start ks deg" and "clamped_end ks deg"
    and "new deg ks np cps = Inr s" and "\<forall>cp \<in> set cps. 2 \<le> length cp"
  shows "\<exists>xs ys. interpolate s = Inr (xs, ys)
     \<and> bind_r (new deg ks np (map (\<lambda>cp. [cp ! 0 + dx, cp ! 1 + dy]) cps)) interpolate
         = Inr (map (\<lambda>x. x + dx) xs, map (\<lambda>y. y + dy) ys)"
proof -
  let ?s' = "s\<lparr>control_points := map (\<lambda>cp. [cp ! 0 + dx, cp ! 1 + dy]) (control_points s)\<rparr>"
  from assms(4) have len: "length cps + deg + 1 = length ks"
    and s: "s = \<lparr>degree = deg, knots = ks, t_values = linspace_values (hd ks) (last ks) np, control_points = cps\<rparr>"
    by (simp_all add: new_Inr)
  have "2 * deg + 2 \<le> length ks" using assms(2) by (simp add: clamped_start_def)
  then have ne: "cps \<noteq> []" using len by auto
  then have wf: "well_formed s" by (rule new_well_formed [OF assms(4) _ assms(5)])
  have n': "new deg ks np (map (\<lambda>cp. [cp ! 0 + dx, cp ! 1 + dy]) cps) = Inr ?s'"
    using assms(4) by (simp add: new_Inr s)
  have wf': "well_formed ?s'" using len ne by (simp add: well_formed_def s)
  have cl: "sorted (knots s)" "clamped_start (knots s) (degree s)" "clamped_end (knots s) (degree s)"
    using assms(1-3) s by simp_all
  have tr: "curve_x ?s' t = curve_x s t + dx \<and> curve_y ?s' t = curve_y s t + dy"
    if "t \<in> set (t_values s)" for t
    using new_samples_range [OF assms(1,4) that]
    by (intro curve_translate curve_weights_closed [OF wf cl]) simp_all
  have "map (curve_x ?s') (t_values s) = map (\<lambda>t. curve_x s t + dx) (t_values s)"
    and "map (curve_y ?s') (t_values s) = map (\<lambda>t. curve_y s t + dy) (t_values s)"
    using tr by (auto intro: map_cong)
  then have "interpolate ?s' = Inr (map (\<lambda>x. x + dx) (map (curve_x s) (t_values s)),
                                    map (\<lambda>y. y + dy) (map (curve_y s) (t_values s)))"
    using interpolate_sums [OF wf'] by simp
  with interpolate_sums [OF wf] n' show ?thesis by simp
qed

theorem interpolate_translate_witness:
  "\<exists>xs ys. interpolate example_spline = Inr (xs, ys)
     \<and> bind_r (new 3 example_knots 100 (map (\<lambda>cp. [cp ! 0 + 1, cp ! 1 + 0]) example_control_points)) interpolate
         = Inr (map (\<lambda>x. x + 1) xs, map (\<lambda>y. y + 0) ys)"
  using interpolate_translate [OF example_sorted example_clamped_start example_clamped_end
      new_example [unfolded example_degree_def example_num_points_def], where dx = 1 and dy = 0]
  by (simp add: example_control_points_def)

text \<open>C9: for any sorted knot vector, an interpolated point whose sample lies in the domain
  \<open>[knots[degree], knots[n])\<close> lies within the coordinate ranges of the control points.\<close>

theorem interpolate_in_domain_hull:
  assumes "sorted ks" and "new deg ks np cps = Inr s" and "cps \<noteq> []"
    and "\<forall>cp \<in> set cps. 2 \<le> length cp \<and> xlo \<le> cp ! 0 \<and> cp ! 0 \<le> xhi \<and> ylo \<le> cp ! 1 \<and> cp ! 1 \<le> yhi"
    and "interpolate s = Inr (xs, ys)" and "j < np"
    and "ks ! deg \<le> t_values s ! j" and "t_values s ! j < ks ! length cps"
  shows "xlo \<le> xs ! j \<and> xs ! j \<le> xhi \<and> ylo \<le> ys ! j \<and> ys ! j \<le> yhi"
proof -
  have wf: "well_formed s" using assms(2,3,4) by (intro new_well_formed) auto
  have s: "knots s = ks" "control_points s = cps" "degree s = deg" and ts: "length (t_values s) = np"
    using assms(2) by (simp_all add: new_Inr)
  let ?t = "t_values s ! j"
  have len: "length cps + deg + 1 = length ks" using wf s by (simp add: well_formed_def)
  have "deg < length cps"
  proof (rule ccontr)
    assume "\<not> deg < length cps"
    then have "ks ! length cps \<le> ks ! deg" using len by (intro knot_mono [OF assms(1)]) simp_all
    with assms(7,8) show False by simp
  qed
  moreover have n: "length cps = length ks - (deg + 1)" using len by simp
  ultimately have w: "(\<Sum>i<length (control_points s). basis_of s ?t (degree s) i) = 1"
    using basis_partition_of_unity [OF assms(1) n] assms(7,8) by (simp add: s)
  have b: "\<forall>cp \<in> set (control_points s). xlo \<le> cp ! 0 \<and> cp ! 0 \<le> xhi"
    "\<forall>cp \<in> set (control_points s). ylo \<le> cp ! 1 \<and> cp ! 1 \<le> yhi"
    using assms(4) s by simp_all
  have "xs = map (curve_x s) (t_values s)" "ys = map (curve_y s) (t_values s)"
    using assms(5) interpolate_sums [OF wf] by simp_all
  with curve_coord_bounds [OF wf _ w b(1)] curve_coord_bounds [OF wf _ w b(2)] assms(1,6) ts s
  show ?thesis by simp
qed

theorem interpolate_in_domain_hull_witness:
  "\<exists>xs ys. interpolate \<lparr>degree = 1, knots = [0, 1, 2, 3], t_values = linspace_values 0 3 4, control_points = [[1, 1], [2, 2]]\<rparr>
      = Inr (xs, ys) \<and> 1 \<le> xs ! 1 \<and> xs ! 1 \<le> (2::real) \<and> 1 \<le> ys ! 1 \<and> ys ! 1 \<le> (2::real)"
proof -
  let ?s = "\<lparr>degree = 1, knots = [0, 1, 2, 3], t_values = linspace_values 0 3 4, control_points = [[1, 1], [2, 2::real]]\<rparr>"
  have n: "new 1 [0, 1, 2, 3] 4 [[1, 1], [2, 2::real]] = Inr ?s" by (simp add: new_Inr)
  have wf: "well_formed ?s" by (simp add: well_formed_def)
  obtain xs ys where i: "interpolate ?s = Inr (xs, ys)" using interpolate_sums [OF wf] by blast
  have "linspace_values 0 3 4 ! 1 = (1::real)" by (simp add: linspace_values_nth)
  then have "1 \<le> xs ! 1 \<and> xs ! 1 \<le> 2 \<and> 1 \<le> ys ! 1 \<and> ys ! 1 \<le> 2"
    by (intro interpolate_in_domain_hull [OF _ n _ _ i]) simp_all
  with i show ?thesis by blast
qed

text \<open>C26: with \<open>num_points = 0\<close> on a non-empty knot vector the program panics in
  \<open>BSpline::new\<close>: peroxide's \<open>linspace\<close> writes \<open>v[0]\<close> of an empty vector. The panic comes
  before the control-point assertion and before any plot, so no file is written.\<close>

theorem run_no_samples:
  assumes "ks \<noteq> []"
  shows "run deg ks 0 cps fs = (Inl (Panic IndexOutOfBounds), fs)"
  using assms by (simp add: run_def new_nonempty linspace_def)

theorem run_no_samples_witness:
  "run (0::nat) [0, 1::real] 0 [[0, 2]] [] = (Inl (Panic IndexOutOfBounds), [])"
  by (rule run_no_samples) simp

end
